theory Spec2Isabelle
  imports Main "HOL-Library.AList" "HOL-Library.Char_ord" "HOL-Library.List_Lexorder"
begin

section \<open>JavaScript values\<close>

text \<open>
  The resolver works on JSON-like JavaScript values: requests, responses, response
  configurations and predicates are all plain objects. An object is an association list
  in the object's own enumeration order; \<open>JUndefined\<close> is JavaScript's \<open>undefined\<close>
  and \<open>JNaN\<close> the number \<open>NaN\<close>, which arithmetic on \<open>undefined\<close> gives.
\<close>

datatype json =
    JUndefined
  | JNull
  | JBool bool
  | JNum int
  | JNaN
  | JStr string
  | JArr "json list"
  | JObj "(string \<times> json) list"

text \<open>
  The error objects built by \<open>util/errors\<close>: a message and the \<open>source\<close> (and
  \<open>data\<close>) the resolver attaches. \<open>TypeError\<close> is the runtime error JavaScript raises
  when a property of \<open>undefined\<close> or \<open>null\<close> is read, \<open>SyntaxError\<close> the one that
  \<open>JSON.parse\<close> raises on a text that is not JSON.
\<close>

datatype error =
    ValidationError string json
  | InjectionError string string string
  | MissingResourceError string string
  | TypeError
  | SyntaxError

definition bindE :: "error + 'a \<Rightarrow> ('a \<Rightarrow> error + 'b) \<Rightarrow> error + 'b" where
  "bindE m f = (case m of Inl e \<Rightarrow> Inl e | Inr x \<Rightarrow> f x)"

text \<open>Truthiness, as \<open>if (v)\<close>, \<open>v && w\<close> and \<open>v || w\<close> test it.\<close>

fun truthy :: "json \<Rightarrow> bool" where
  "truthy JUndefined = False"
| "truthy JNull = False"
| "truthy (JBool b) = b"
| "truthy (JNum n) = (n \<noteq> 0)"
| "truthy JNaN = False"
| "truthy (JStr s) = (s \<noteq> [])"
| "truthy (JArr xs) = True"
| "truthy (JObj kvs) = True"

text \<open>Modelled from the spec: \<open>helpers.defined\<close> (util/helpers is not among the
  sources), true of every value but the absent/undefined one.\<close>

definition defined :: "json \<Rightarrow> bool" where
  "defined v = (v \<noteq> JUndefined)"

text \<open>Modelled from the spec: \<open>helpers.isObject\<close> (util/helpers is not among the
  sources), true of the values that have nested fields: objects and arrays.\<close>

fun isObject :: "json \<Rightarrow> bool" where
  "isObject (JObj kvs) = True"
| "isObject (JArr xs) = True"
| "isObject v = False"

text \<open>
  Modelled from the spec: \<open>helpers.clone\<close> (util/helpers is not among the sources), a
  deep copy, made the way JavaScript copies JSON data: the value is written as JSON text
  and the text is parsed again. A property without a value is left out of the text, a
  hole in an array and \<open>NaN\<close> are written as \<open>null\<close>, and a value that has no JSON text
  (\<open>undefined\<close>) makes the parser raise. \<open>parsed\<close> is the value read back from the text
  of a value that has one.
\<close>

primrec parsed :: "json \<Rightarrow> json" where
  "parsed JUndefined = JUndefined"
| "parsed JNull = JNull"
| "parsed (JBool b) = JBool b"
| "parsed (JNum n) = JNum n"
| "parsed JNaN = JNull"
| "parsed (JStr s) = JStr s"
| "parsed (JArr xs) = JArr (map (\<lambda>x. if x = JUndefined then JNull else x) (map parsed xs))"
| "parsed (JObj kvs) =
     JObj (filter (\<lambda>kv. snd kv \<noteq> JUndefined) (map (map_prod id parsed) kvs))"

definition clone :: "json \<Rightarrow> error + json" where
  "clone obj = (if obj = JUndefined then Inl SyntaxError else Inr (parsed obj))"

text \<open>The decimal text of a number, as a template string prints it.\<close>

definition digit :: "nat \<Rightarrow> char" where
  "digit n = ''0123456789'' ! n"

function decimal :: "nat \<Rightarrow> string" where
  "decimal n = (if n < 10 then [digit n] else decimal (n div 10) @ [digit (n mod 10)])"
  by pat_completeness auto
termination
  by (relation "measure id") auto

declare decimal.simps [simp del]

text \<open>Reading an array index written as a property name.\<close>

definition indexOfKey :: "nat \<Rightarrow> string \<Rightarrow> nat option" where
  "indexOfKey n k = find (\<lambda>i. decimal i = k) [0..<n]"

text \<open>
  Property read \<open>v[k]\<close>: a missing property is \<open>undefined\<close>; reading any property of
  \<open>undefined\<close> or \<open>null\<close> raises.
\<close>

fun get :: "json \<Rightarrow> string \<Rightarrow> error + json" where
  "get JUndefined k = Inl TypeError"
| "get JNull k = Inl TypeError"
| "get (JObj kvs) k = Inr (case map_of kvs k of None \<Rightarrow> JUndefined | Some v \<Rightarrow> v)"
| "get (JArr xs) k =
     Inr (if k = ''length'' then JNum (int (length xs))
          else case indexOfKey (length xs) k of None \<Rightarrow> JUndefined | Some i \<Rightarrow> xs ! i)"
| "get (JStr s) k =
     Inr (if k = ''length'' then JNum (int (length s))
          else case indexOfKey (length s) k of None \<Rightarrow> JUndefined | Some i \<Rightarrow> JStr [s ! i])"
| "get v k = Inr JUndefined"

text \<open>
  Property write \<open>v[k] = w\<close>. On an object an existing property keeps its place and a
  new one goes last. The module is in strict mode, where writing a property of a
  primitive raises like writing one of \<open>undefined\<close> or \<open>null\<close>. An array keeps only
  its elements: a named property written on one is not kept.
\<close>

fun put :: "json \<Rightarrow> string \<Rightarrow> json \<Rightarrow> error + json" where
  "put (JObj kvs) k w = Inr (JObj (AList.update k w kvs))"
| "put (JArr xs) k w = Inr (JArr xs)"
| "put v k w = Inl TypeError"

text \<open>\<open>Object.keys(v)\<close>.\<close>

fun keys :: "json \<Rightarrow> error + string list" where
  "keys JUndefined = Inl TypeError"
| "keys JNull = Inl TypeError"
| "keys (JObj kvs) = Inr (map fst kvs)"
| "keys (JArr xs) = Inr (map decimal [0..<length xs])"
| "keys (JStr s) = Inr (map decimal [0..<length s])"
| "keys v = Inr []"

text \<open>The text of a value inside a template string.\<close>

definition signedDecimal :: "int \<Rightarrow> string" where
  "signedDecimal i = (if i < 0 then CHR ''-'' # decimal (nat (- i)) else decimal (nat i))"

fun joinWith :: "string \<Rightarrow> string list \<Rightarrow> string" where
  "joinWith sep [] = []"
| "joinWith sep [s] = s"
| "joinWith sep (s # t # ss) = s @ sep @ joinWith sep (t # ss)"

fun templateText :: "json \<Rightarrow> string" where
  "templateText JUndefined = ''undefined''"
| "templateText JNull = ''null''"
| "templateText (JBool b) = (if b then ''true'' else ''false'')"
| "templateText (JNum n) = signedDecimal n"
| "templateText JNaN = ''NaN''"
| "templateText (JStr s) = s"
| "templateText (JArr xs) =
     joinWith '','' (map (\<lambda>x. if x = JUndefined \<or> x = JNull then [] else templateText x) xs)"
| "templateText (JObj kvs) = ''[object Object]''"

subsection \<open>Deep equality\<close>

text \<open>
  Modelled from the spec: \<open>json-stable-stringify\<close> (a library, not among the sources),
  the canonical form with a stable key ordering. The model keeps the canonical value
  whose JSON text the library prints: keys sorted, properties without a value left out,
  a hole in an array printed as \<open>null\<close>.
\<close>

primrec stringify :: "json \<Rightarrow> json" where
  "stringify JUndefined = JUndefined"
| "stringify JNull = JNull"
| "stringify (JBool b) = JBool b"
| "stringify (JNum n) = JNum n"
| "stringify JNaN = JNull"
| "stringify (JStr s) = JStr s"
| "stringify (JArr xs) =
     JArr (map (\<lambda>x. if x = JUndefined then JNull else x) (map stringify xs))"
| "stringify (JObj kvs) =
     JObj (sort_key fst (filter (\<lambda>kv. snd kv \<noteq> JUndefined) (map (map_prod id stringify) kvs)))"

definition deepEqual :: "json \<Rightarrow> json \<Rightarrow> bool" where
  "deepEqual obj1 obj2 = (stringify obj1 = stringify obj2)"

section \<open>Selector value extraction\<close>

fun selectionValue :: "json \<Rightarrow> json" where
  "selectionValue nodes =
     (if \<not> defined nodes then JStr ''''
      else case nodes of
        JArr ns \<Rightarrow> (if length ns = 1 then ns ! 0 else nodes)
      | _ \<Rightarrow> nodes)"

section \<open>Promises and collaborators\<close>

text \<open>
  A promise is modelled by the way it settles. \<open>Delayed n p\<close> settles like \<open>p\<close> once a
  timer of \<open>n\<close> milliseconds has fired; \<open>Pending\<close> never settles. An exception raised by
  the resolver's own code is \<open>Rejected\<close> as well: inside a \<open>then\<close> callback it rejects
  the promise, and before the first promise exists it reaches the caller directly.
\<close>

datatype 'a promise = Fulfilled 'a | Rejected error | Pending | Delayed nat "'a promise"

text \<open>
  What evaluating injected response logic does: the argument it hands to the completion
  callback while it runs (if it calls it), the value it returns or the message of the
  error it raises, and the argument of a callback call made after it has returned.
\<close>

record evaluation =
  calledBack :: "json option"
  outcome :: "string + json"
  calledLater :: "json option"

text \<open>
  Response configurations and responses are objects that the resolver shares with the
  stub repository and with its callers, and some of them it changes in place. They live
  in a store, a list of cells addressed by position. A rule of the stub repository has
  its predicates and holds the addresses of its response configurations.
\<close>

type_synonym ref = nat

record stub =
  predicates :: json
  responses :: "ref list"

text \<open>
  The parts of the resolver's surroundings that are not among the sources are parameters:
  the protocol's proxy implementation (\<open>proxy.to\<close>, absent for an out-of-process
  protocol), the callback URL, the behaviour pipeline (\<open>behaviors.execute\<close>), JavaScript's
  \<open>eval\<close> on injected source text, the xpath and jsonpath selectors, the downcast of
  \<open>compatibility\<close>, the two readings of the clock (on entry, and when the in-process
  proxy has answered), and the stub repository's \<open>addStub\<close>: the rule list it makes of
  the store, the current rule list, the new rule and the response configuration that
  the call passes along with the rule, if it passes one.
\<close>

record collaborators =
  proxy :: "(json \<Rightarrow> json \<Rightarrow> json \<Rightarrow> json \<Rightarrow> json promise) option"
  callbackURL :: string
  execute :: "json \<Rightarrow> json \<Rightarrow> json \<Rightarrow> json promise"
  evalInjection :: "string \<Rightarrow> json \<Rightarrow> json \<Rightarrow> evaluation"
  evalGenerator :: "string \<Rightarrow> json \<Rightarrow> string + json list"
  xpathSelect :: "json \<Rightarrow> json \<Rightarrow> json \<Rightarrow> json"
  jsonpathSelect :: "json \<Rightarrow> json \<Rightarrow> json"
  downcastInjectionConfig :: "json \<Rightarrow> json"
  clock :: int
  clockAfterProxy :: int
  repositoryAddStub :: "json list \<Rightarrow> stub list \<Rightarrow> stub \<Rightarrow> json option \<Rightarrow> stub list"

text \<open>A call of \<open>logger.error\<close>: its fixed text and the value printed after it.\<close>

type_synonym logline = "string \<times> json"

section \<open>Predicate generation\<close>

definition xpathValue :: "collaborators \<Rightarrow> json \<Rightarrow> json \<Rightarrow> error + json" where
  "xpathValue env xpathConfig possibleXML =
     bindE (get xpathConfig ''selector'') (\<lambda>sel.
     bindE (get xpathConfig ''ns'') (\<lambda>ns.
     Inr (selectionValue (xpathSelect env sel ns possibleXML))))"

definition jsonpathValue :: "collaborators \<Rightarrow> json \<Rightarrow> json \<Rightarrow> error + json" where
  "jsonpathValue env jsonpathConfig possibleJSON =
     bindE (get jsonpathConfig ''selector'') (\<lambda>sel.
     Inr (selectionValue (jsonpathSelect env sel possibleJSON)))"

text \<open>The closure \<open>valueOf\<close> of \<open>predicatesFor\<close>: the identity, or the selector of the
  matcher it was built for.\<close>

datatype selector = Plain | XPath | JsonPath

definition valueOf :: "collaborators \<Rightarrow> json \<Rightarrow> selector \<Rightarrow> json \<Rightarrow> error + json" where
  "valueOf env matcher sel field =
     (case sel of
        Plain \<Rightarrow> Inr field
      | XPath \<Rightarrow> bindE (get matcher ''xpath'') (\<lambda>cfg. xpathValue env cfg field)
      | JsonPath \<Rightarrow> bindE (get matcher ''jsonpath'') (\<lambda>cfg. jsonpathValue env cfg field))"

lemma bindE_cong [fundef_cong]:
  "m = m' \<Longrightarrow> (\<And>x. m' = Inr x \<Longrightarrow> f x = f' x) \<Longrightarrow> bindE m f = bindE m' f'"
  by (auto simp: bindE_def split: sum.splits)

lemma size_map_of:
  "map_of kvs k = Some v \<Longrightarrow> size v < size (JObj kvs)"
  by (induction kvs) (auto split: if_splits)

lemma size_member:
  "x \<in> set xs \<Longrightarrow> size x < size (JArr xs)"
  by (induction xs) auto

lemma size_nth:
  "i < length xs \<Longrightarrow> size (xs ! i) < size (JArr xs)"
  using size_member [of "xs ! i" xs] by simp

lemma indexOfKey_less:
  "indexOfKey n k = Some i \<Longrightarrow> i < n"
  by (auto simp: indexOfKey_def find_Some_iff)

lemma size_get:
  assumes "get v k = Inr field" and "isObject field"
  shows "size field < size v"
proof (cases v)
  case (JArr xs)
  with assms obtain i where "indexOfKey (length xs) k = Some i" and "field = xs ! i"
    by (auto split: option.splits if_splits)
  then show ?thesis
    using JArr size_nth [of i xs] indexOfKey_less [of "length xs" k i] by simp
next
  case (JObj kvs)
  with assms have "map_of kvs k = Some field"
    by (auto split: option.splits)
  then show ?thesis
    using JObj size_map_of [of kvs k field] by simp
qed (use assms in \<open>auto split: option.splits if_splits\<close>)

function buildEquals :: "collaborators \<Rightarrow> json \<Rightarrow> selector \<Rightarrow> json \<Rightarrow> json \<Rightarrow> error + json"
  and buildEqualsKeys ::
    "collaborators \<Rightarrow> json \<Rightarrow> selector \<Rightarrow> json \<Rightarrow> json \<Rightarrow> string list \<Rightarrow> json \<Rightarrow> error + json"
where
  "buildEquals env matcher sel req matchers =
     bindE (keys matchers) (\<lambda>ks. buildEqualsKeys env matcher sel req matchers ks (JObj []))"
| "buildEqualsKeys env matcher sel req matchers [] result = Inr result"
| "buildEqualsKeys env matcher sel req matchers (key # ks) result =
     bindE (get req key) (\<lambda>field.
     bindE (if isObject field
            then bindE (get matchers key) (\<lambda>m. buildEquals env matcher sel field m)
            else valueOf env matcher sel field) (\<lambda>v.
     bindE (put result key v) (\<lambda>result'.
     buildEqualsKeys env matcher sel req matchers ks result')))"
  by pat_completeness auto
termination
  by (relation "measures
        [\<lambda>x. case x of Inl (_, _, _, req, _) \<Rightarrow> size req | Inr (_, _, _, req, _, _, _) \<Rightarrow> size req,
         \<lambda>x. case x of Inl _ \<Rightarrow> 1 | Inr _ \<Rightarrow> 0,
         \<lambda>x. case x of Inl _ \<Rightarrow> 0 | Inr (_, _, _, _, _, ks, _) \<Rightarrow> length ks]")
     (auto simp: size_get)

text \<open>The first loop over a matcher: its parameters go into the base predicate, and an
  \<open>xpath\<close> or \<open>jsonpath\<close> parameter replaces \<open>valueOf\<close>.\<close>

fun matcherParameters :: "json \<Rightarrow> string list \<Rightarrow> json \<times> selector \<Rightarrow> error + json \<times> selector" where
  "matcherParameters matcher [] acc = Inr acc"
| "matcherParameters matcher (key # ks) (basePredicate, sel) =
     bindE (if key \<noteq> ''matches''
            then bindE (get matcher key) (\<lambda>v. put basePredicate key v)
            else Inr basePredicate) (\<lambda>basePredicate'.
     matcherParameters matcher ks
       (basePredicate',
        if key = ''xpath'' then XPath else if key = ''jsonpath'' then JsonPath else sel))"

text \<open>The second loop: one predicate for each field of \<open>matcher.matches\<close>.\<close>

fun matchesPredicates ::
  "collaborators \<Rightarrow> json \<Rightarrow> json \<Rightarrow> selector \<Rightarrow> json \<Rightarrow> json \<Rightarrow> string list \<Rightarrow> error + json list"
where
  "matchesPredicates env req matcher sel basePredicate matches [] = Inr []"
| "matchesPredicates env req matcher sel basePredicate matches (fieldName # fs) =
     bindE (get matches fieldName) (\<lambda>matcherValue.
     bindE (clone basePredicate) (\<lambda>predicate.
     bindE (get req fieldName) (\<lambda>field.
     bindE (if matcherValue = JBool True
            then bindE (valueOf env matcher sel field) (\<lambda>v.
                   put predicate ''deepEquals'' (JObj [(fieldName, v)]))
            else bindE (buildEquals env matcher sel field matcherValue) (\<lambda>v.
                   put predicate ''equals'' (JObj [(fieldName, v)]))) (\<lambda>predicate.
     bindE (matchesPredicates env req matcher sel basePredicate matches fs) (\<lambda>rest.
     Inr (predicate # rest))))))"

definition matcherPredicates :: "collaborators \<Rightarrow> json \<Rightarrow> json \<Rightarrow> error + json list" where
  "matcherPredicates env req matcher =
     bindE (keys matcher) (\<lambda>ks.
     bindE (matcherParameters matcher ks (JObj [], Plain)) (\<lambda>(basePredicate, sel).
     bindE (get matcher ''matches'') (\<lambda>matches.
     bindE (keys matches) (\<lambda>fs.
     matchesPredicates env req matcher sel basePredicate matches fs))))"

fun predicatesFrom :: "collaborators \<Rightarrow> json \<Rightarrow> json list \<Rightarrow> logline list \<times> (error + json list)" where
  "predicatesFrom env req [] = ([], Inr [])"
| "predicatesFrom env req (matcher # ms) =
     (case get matcher ''inject'' of
        Inl e \<Rightarrow> ([], Inl e)
      | Inr injectValue \<Rightarrow>
          (case (if truthy injectValue
                 then (let injected = ''('' @ templateText injectValue @ '')(config);'' in
                       case evalGenerator env injected req of
                         Inl msg \<Rightarrow>
                           ([(''injection X=> '', JStr msg),
                             (''    source: '', JStr injected),
                             (''    request: '', req)],
                            Inl (InjectionError ''invalid predicateGenerator injection'' injected msg))
                       | Inr ps \<Rightarrow> ([], Inr ps))
                 else ([], matcherPredicates env req matcher)) of
             (lines, Inl e) \<Rightarrow> (lines, Inl e)
           | (lines, Inr ps) \<Rightarrow>
               (case predicatesFrom env req ms of
                  (lines', r) \<Rightarrow> (lines', bindE r (\<lambda>rest. Inr (ps @ rest))))))"

definition predicatesFor :: "collaborators \<Rightarrow> json \<Rightarrow> json \<Rightarrow> logline list \<times> (error + json list)" where
  "predicatesFor env req matchers =
     (case matchers of
        JArr ms \<Rightarrow> predicatesFrom env req ms
      | _ \<Rightarrow> ([], Inl TypeError))"

section \<open>The resolver's state\<close>

text \<open>
  A pending proxy resolution: the response configuration (by its address), the request,
  the time the exchange started and the protocol's request details.
\<close>

record pending =
  responseConfig :: ref
  request :: json
  startTime :: int
  requestDetails :: json

text \<open>
  The state closed over by \<open>create\<close>: the stub repository \<open>stubs\<close>, the pending proxy
  resolutions and the next resolution key; with it the store, the lines written to the
  logger, and the source texts handed to \<open>eval\<close> for a response.
  \<open>pendingProxyResolutions\<close> is a plain object, so its entries are indexed by property
  name: the entry stored under a number key has the number's decimal text as its name
  (every key that a resolver can reach is an integer that prints in decimal), and a
  lookup is made with whatever name the caller passes.
\<close>

record resolver =
  objects :: "json list"
  stubs :: "stub list"
  pendingProxyResolutions :: "string \<rightharpoonup> pending"
  nextProxyResolutionKey :: nat
  logged :: "logline list"
  evaluated :: "string list"

definition create :: "json list \<Rightarrow> stub list \<Rightarrow> resolver" where
  "create store stubRepository =
     \<lparr>objects = store, stubs = stubRepository, pendingProxyResolutions = Map.empty,
      nextProxyResolutionKey = 0, logged = [], evaluated = []\<rparr>"

text \<open>Reading an address that holds no object gives \<open>undefined\<close>.\<close>

definition deref :: "resolver \<Rightarrow> ref \<Rightarrow> json" where
  "deref st r = (if r < length (objects st) then objects st ! r else JUndefined)"

definition alloc :: "resolver \<Rightarrow> json \<Rightarrow> ref \<times> resolver" where
  "alloc st v = (length (objects st), st\<lparr>objects := objects st @ [v]\<rparr>)"

definition assign :: "resolver \<Rightarrow> ref \<Rightarrow> json \<Rightarrow> resolver" where
  "assign st r v = st\<lparr>objects := (objects st)[r := v]\<rparr>"

definition logError :: "resolver \<Rightarrow> logline list \<Rightarrow> resolver" where
  "logError st ls = st\<lparr>logged := logged st @ ls\<rparr>"

text \<open>
  An object nested in a stored object is a part of that object, not an object of its
  own: it is located by the address of the cell and the property names that lead to it.
  A response handed out by the resolver is such a location, so that it can be told
  whether the caller holds a stored object or a copy of it. \<open>writeAt\<close> is what a caller
  does when it changes the object at a location into another value.
\<close>

type_synonym loc = "ref \<times> string list"

fun at :: "json \<Rightarrow> string list \<Rightarrow> json" where
  "at v [] = v"
| "at v (k # ks) = (case get v k of Inr w \<Rightarrow> at w ks | Inl e \<Rightarrow> JUndefined)"

fun setAt :: "json \<Rightarrow> string list \<Rightarrow> json \<Rightarrow> json" where
  "setAt v [] w = w"
| "setAt v (k # ks) w =
     (case get v k of
        Inr u \<Rightarrow> (case put v k (setAt u ks w) of Inr v' \<Rightarrow> v' | Inl e \<Rightarrow> v)
      | Inl e \<Rightarrow> v)"

definition readAt :: "resolver \<Rightarrow> loc \<Rightarrow> json" where
  "readAt st l = at (deref st (fst l)) (snd l)"

definition writeAt :: "resolver \<Rightarrow> loc \<Rightarrow> json \<Rightarrow> resolver" where
  "writeAt st l w = assign st (fst l) (setAt (deref st (fst l)) (snd l) w)"

text \<open>
  Modelled from the spec: \<open>helpers.clone\<close> applied to the object at a location
  (util/helpers is not among the sources). The value parsed from the JSON text is a new
  object, in a cell of its own, that shares nothing with the object copied.
\<close>

definition cloneAt :: "resolver \<Rightarrow> loc \<Rightarrow> (error + loc) \<times> resolver" where
  "cloneAt st l =
     (case clone (readAt st l) of
        Inl e \<Rightarrow> (Inl e, st)
      | Inr v \<Rightarrow> (case alloc st v of (r, st') \<Rightarrow> (Inr (r, []), st')))"

text \<open>Sequencing of steps that change the state and may raise.\<close>

definition bindS ::
  "(error + 'a) \<times> resolver \<Rightarrow> ('a \<Rightarrow> resolver \<Rightarrow> (error + 'b) \<times> resolver) \<Rightarrow> (error + 'b) \<times> resolver"
where
  "bindS m f = (case m of (Inl e, st) \<Rightarrow> (Inl e, st) | (Inr x, st) \<Rightarrow> f x st)"

section \<open>Recording proxied exchanges\<close>

fun stubIndexIn :: "resolver \<Rightarrow> json \<Rightarrow> stub list \<Rightarrow> nat" where
  "stubIndexIn st rc [] = 0"
| "stubIndexIn st rc (s # ss) =
     (if list_ex (\<lambda>response. deepEqual (deref st response) rc) (responses s) then 0
      else Suc (stubIndexIn st rc ss))"

definition stubIndexFor :: "resolver \<Rightarrow> json \<Rightarrow> nat" where
  "stubIndexFor st rc = stubIndexIn st rc (stubs st)"

subsection \<open>The stub repository\<close>

text \<open>
  \<open>stubs.addStub(newStub, beforeResponse)\<close>: the stub repository is not among the
  sources, and where it puts the new rule is the collaborator's decision. The call
  changes the rule list and nothing else of the resolver's state.
\<close>

definition addStub :: "collaborators \<Rightarrow> resolver \<Rightarrow> stub \<Rightarrow> json option \<Rightarrow> resolver" where
  "addStub env st newStub beforeResponse =
     st\<lparr>stubs := repositoryAddStub env (objects st) (stubs st) newStub beforeResponse\<rparr>"

text \<open>
  Modelled from the spec: \<open>addResponse\<close> of a rule (the stub repository is not among
  the sources), which appends a response to the response list of the rule at an index.
\<close>

definition addResponse :: "resolver \<Rightarrow> nat \<Rightarrow> ref \<Rightarrow> resolver" where
  "addResponse st i response =
     st\<lparr>stubs := (stubs st)[i := (stubs st ! i)\<lparr>responses := responses (stubs st ! i) @ [response]\<rparr>]\<rparr>"

text \<open>
  Modelled from the spec: \<open>responseConfig.setMetadata\<close> (installed on a configuration
  by the stub repository, which is not among the sources), an explicit mutation of the
  configuration: each key of the metadata is written into the configuration's entry for
  the response type. The configuration is changed in place, so the rule that holds it
  sees the change.
\<close>

fun putAll :: "json \<Rightarrow> (string \<times> json) list \<Rightarrow> error + json" where
  "putAll v [] = Inr v"
| "putAll v ((k, w) # kvs) = bindE (put v k w) (\<lambda>v'. putAll v' kvs)"

definition setMetadata ::
  "resolver \<Rightarrow> ref \<Rightarrow> string \<Rightarrow> (string \<times> json) list \<Rightarrow> (error + unit) \<times> resolver"
where
  "setMetadata st rc responseType metadata =
     (case bindE (get (deref st rc) responseType) (\<lambda>entry.
           bindE (putAll entry metadata) (\<lambda>entry'.
           put (deref st rc) responseType entry')) of
        Inl e \<Rightarrow> (Inl e, st)
      | Inr config \<Rightarrow> (Inr (), assign st rc config))"

subsection \<open>The recording engine\<close>

definition generatedPredicates ::
  "collaborators \<Rightarrow> resolver \<Rightarrow> json \<Rightarrow> json \<Rightarrow> (error + json list) \<times> resolver"
where
  "generatedPredicates env st rc req =
     (case bindE (get rc ''proxy'') (\<lambda>p. get p ''predicateGenerators'') of
        Inl e \<Rightarrow> (Inl e, st)
      | Inr generators \<Rightarrow>
          (case predicatesFor env req (if truthy generators then generators else JArr []) of
             (ls, r) \<Rightarrow> (r, logError st ls)))"

fun indexFrom :: "json list \<Rightarrow> stub list \<Rightarrow> nat \<Rightarrow> int" where
  "indexFrom preds [] index = - 1"
| "indexFrom preds (s # ss) index =
     (if deepEqual (JArr preds) (predicates s) then int index
      else indexFrom preds ss (Suc index))"

definition indexOfStubToAddResponseTo ::
  "collaborators \<Rightarrow> resolver \<Rightarrow> json \<Rightarrow> json \<Rightarrow> (error + int) \<times> resolver"
where
  "indexOfStubToAddResponseTo env st rc req =
     bindS (generatedPredicates env st rc req) (\<lambda>preds st'.
       (Inr (indexFrom preds (drop (stubIndexFor st' rc + 1) (stubs st')) (stubIndexFor st' rc + 1)),
        st'))"

definition canAddResponseToExistingStub ::
  "collaborators \<Rightarrow> resolver \<Rightarrow> json \<Rightarrow> json \<Rightarrow> (error + bool) \<times> resolver"
where
  "canAddResponseToExistingStub env st rc req =
     bindS (indexOfStubToAddResponseTo env st rc req) (\<lambda>index st'. (Inr (index \<ge> 0), st'))"

definition newIsResponse :: "json \<Rightarrow> json \<Rightarrow> error + json" where
  "newIsResponse response proxyConfig =
     bindE (get proxyConfig ''addWaitBehavior'') (\<lambda>addWait.
     bindE (if truthy addWait then get response ''_proxyResponseTime'' else Inr addWait) (\<lambda>wait.
     bindE (get proxyConfig ''addDecorateBehavior'') (\<lambda>decorate.
     (let addBehaviors =
            (if truthy wait then [(''wait'', wait)] else []) @
            (if truthy decorate then [(''decorate'', decorate)] else [])
      in Inr (JObj ((''is'', response) #
                    (if length addBehaviors \<noteq> 0 then [(''_behaviors'', JObj addBehaviors)] else [])))))))"

definition addNewResponse ::
  "collaborators \<Rightarrow> resolver \<Rightarrow> json \<Rightarrow> json \<Rightarrow> json \<Rightarrow> (error + unit) \<times> resolver"
where
  "addNewResponse env st rc req response =
     bindS (bindE (get rc ''proxy'') (newIsResponse response), st) (\<lambda>stubResponse st1.
     bindS (indexOfStubToAddResponseTo env st1 rc req) (\<lambda>responseIndex st2.
       if 0 \<le> responseIndex \<and> nat responseIndex < length (stubs st2)
       then (case alloc st2 stubResponse of
               (r, st3) \<Rightarrow> (Inr (), addResponse st3 (nat responseIndex) r))
       else (Inl TypeError, st2)))"

definition addNewStub ::
  "collaborators \<Rightarrow> resolver \<Rightarrow> json \<Rightarrow> json \<Rightarrow> json \<Rightarrow> (error + unit) \<times> resolver"
where
  "addNewStub env st rc req response =
     bindS (generatedPredicates env st rc req) (\<lambda>preds st1.
     bindS (bindE (get rc ''proxy'') (newIsResponse response), st1) (\<lambda>stubResponse st2.
     bindS (bindE (get rc ''proxy'') (\<lambda>p. get p ''mode''), st2) (\<lambda>mode st3.
       (case alloc st3 stubResponse of
          (r, st4) \<Rightarrow>
            (let newStub = \<lparr>predicates = JArr preds, responses = [r]\<rparr>
             in if mode = JStr ''proxyAlways''
                then (Inr (), addStub env st4 newStub None)
                else (Inr (), addStub env st4 newStub (Some rc)))))))"

definition recordProxyResponse ::
  "collaborators \<Rightarrow> resolver \<Rightarrow> json \<Rightarrow> json \<Rightarrow> json \<Rightarrow> (error + unit) \<times> resolver"
where
  "recordProxyResponse env st rc req response =
     bindS (bindE (get rc ''proxy'') (\<lambda>p. get p ''mode''), st) (\<lambda>mode st1.
       if mode = JStr ''proxyTransparent'' then (Inr (), st1)
       else if mode = JStr ''proxyAlways''
       then bindS (canAddResponseToExistingStub env st1 rc req) (\<lambda>can st2.
              if can then addNewResponse env st2 rc req response
              else addNewStub env st2 rc req response)
       else addNewStub env st1 rc req response)"

section \<open>Resolving a response\<close>

text \<open>
  What a promise of the resolver is fulfilled with: a response object (by its location),
  a response object wrapped as \<open>{ response }\<close> for an out-of-process protocol, or the
  request \<open>{ proxy, request, callbackURL }\<close> that asks such a protocol to proxy.
\<close>

datatype reply = Response loc | Wrapped loc | ProxyRequest json json string

text \<open>
  \<open>p.then(f)\<close>, with the state the callback works on. Exchanges do not interleave: the
  state returned is the one in which the callback has run.
\<close>

primrec thenP ::
  "'a promise \<Rightarrow> resolver \<Rightarrow> ('a \<Rightarrow> resolver \<Rightarrow> 'b promise \<times> resolver) \<Rightarrow> 'b promise \<times> resolver"
where
  "thenP (Fulfilled v) st f = f v st"
| "thenP (Rejected e) st f = (Rejected e, st)"
| "thenP Pending st f = (Pending, st)"
| "thenP (Delayed n p) st f = (case thenP p st f of (q, st') \<Rightarrow> (Delayed n q, st'))"

definition thenS ::
  "'a promise \<times> resolver \<Rightarrow> ('a \<Rightarrow> resolver \<Rightarrow> 'b promise \<times> resolver) \<Rightarrow> 'b promise \<times> resolver"
where
  "thenS m f = thenP (fst m) (snd m) f"

text \<open>A step that may raise, run inside a callback or before the first promise exists.\<close>

definition tryS ::
  "(error + 'a) \<times> resolver \<Rightarrow> ('a \<Rightarrow> resolver \<Rightarrow> 'b promise \<times> resolver) \<Rightarrow> 'b promise \<times> resolver"
where
  "tryS m f = (case m of (Inl e, st) \<Rightarrow> (Rejected e, st) | (Inr x, st) \<Rightarrow> f x st)"

subsection \<open>Injected response logic\<close>

text \<open>
  The injection configuration holds the cloned request and the imposter state; its
  logger and its callback are functions and have no JSON value. What the injected logic
  does to the imposter state is the logic's own effect on the imposter's object and is
  not followed here.
\<close>

definition inject :: "collaborators \<Rightarrow> resolver \<Rightarrow> json \<Rightarrow> json \<Rightarrow> json \<Rightarrow> json promise \<times> resolver" where
  "inject env st req fn imposterState =
     tryS (clone req, st) (\<lambda>cloned st.
     (let config = downcastInjectionConfig env
                     (JObj [(''request'', cloned), (''state'', imposterState)]);
          injected = ''('' @ templateText fn @
                     '')(config, injectState, logger, deferred.resolve, imposterState);''
      in tryS (get req ''isDryRun'', st) (\<lambda>isDryRun st.
           if isDryRun = JBool True then (Delayed 1 (Fulfilled (JObj [])), st)
           else
             (let ev = evalInjection env injected config imposterState;
                  st1 = st\<lparr>evaluated := evaluated st @ [injected]\<rparr>
              in case outcome ev of
                   Inr response \<Rightarrow>
                     (case calledBack ev of
                        Some v \<Rightarrow> (Fulfilled v, st1)
                      | None \<Rightarrow>
                          if defined response then (Fulfilled response, st1)
                          else (case calledLater ev of
                                  Some v \<Rightarrow> (Fulfilled v, st1)
                                | None \<Rightarrow> (Pending, st1)))
                 | Inl msg \<Rightarrow>
                     (case calledBack ev of
                        Some v \<Rightarrow> Fulfilled v
                      | None \<Rightarrow> Rejected (InjectionError ''invalid response injection'' injected msg),
                      logError st1
                        [(''injection X=> '', JStr msg),
                         (''    full source: '', JStr injected),
                         (''    config: '', config)])))))"

subsection \<open>Proxying\<close>

definition proxyAndRecord ::
  "collaborators \<Rightarrow> resolver \<Rightarrow> ref \<Rightarrow> json \<Rightarrow> json \<Rightarrow> reply promise \<times> resolver"
where
  "proxyAndRecord env st rc req details =
     tryS (bindE (get (deref st rc) ''proxy'') (\<lambda>p. get p ''mode''), st) (\<lambda>mode st.
     tryS (if mode \<notin> set [JStr ''proxyOnce'', JStr ''proxyAlways'', JStr ''proxyTransparent'']
           then setMetadata st rc ''proxy'' [(''mode'', JStr ''proxyOnce'')]
           else (Inr (), st)) (\<lambda>_ st1.
     tryS (get (deref st1 rc) ''proxy'', st1) (\<lambda>proxyConfig st1.
       case proxy env of
         Some proxyTo \<Rightarrow>
           tryS (get proxyConfig ''to'', st1) (\<lambda>target st1.
           thenP (proxyTo target req proxyConfig details) st1 (\<lambda>response st2.
           tryS (put response ''_proxyResponseTime'' (JNum (clockAfterProxy env - clock env)), st2)
             (\<lambda>response st2.
           (case alloc st2 response of (r, st3) \<Rightarrow>
           tryS (get (deref st3 rc) ''_behaviors'', st3) (\<lambda>behaviors st3.
           thenP (execute env req response behaviors) st3 (\<lambda>response st4.
           (let st5 = assign st4 r response
            in tryS (recordProxyResponse env st5 (deref st5 rc) req response)
                 (\<lambda>_ st6. (Fulfilled (Response (r, [])), st6)))))))))
       | None \<Rightarrow>
           (let st2 = st1\<lparr>pendingProxyResolutions :=
                            (pendingProxyResolutions st1)(decimal (nextProxyResolutionKey st1) \<mapsto>
                              \<lparr>responseConfig = rc, request = req, startTime = clock env,
                               requestDetails = details\<rparr>)\<rparr>;
                st3 = st2\<lparr>nextProxyResolutionKey := nextProxyResolutionKey st2 + 1\<rparr>
            in (Fulfilled (ProxyRequest proxyConfig req
                  (callbackURL env @ ''/'' @ decimal (nextProxyResolutionKey st3 - 1))),
                st3)))))"

subsection \<open>Dispatch\<close>

definition processResponse ::
  "collaborators \<Rightarrow> resolver \<Rightarrow> ref \<Rightarrow> json \<Rightarrow> json \<Rightarrow> json \<Rightarrow> reply promise \<times> resolver"
where
  "processResponse env st rc req imposterState details =
     tryS (get (deref st rc) ''is'', st) (\<lambda>isValue st.
       if truthy isValue
       then tryS (cloneAt st (rc, [''is''])) (\<lambda>copy st1. (Fulfilled (Response copy), st1))
       else
         tryS (get (deref st rc) ''proxy'', st) (\<lambda>proxyValue st.
           if truthy proxyValue then proxyAndRecord env st rc req details
           else
             tryS (get (deref st rc) ''inject'', st) (\<lambda>injectValue st.
               if truthy injectValue
               then thenS (inject env st req injectValue imposterState) (\<lambda>response st1.
                      case alloc st1 response of (r, st2) \<Rightarrow> (Fulfilled (Response (r, [])), st2))
               else tryS (clone (deref st rc), st) (\<lambda>source st.
                      (Rejected (ValidationError ''unrecognized response type'' source), st)))))"

definition hasMultipleTypes :: "json \<Rightarrow> error + bool" where
  "hasMultipleTypes config =
     bindE (get config ''is'') (\<lambda>isValue.
     bindE (get config ''proxy'') (\<lambda>proxyValue.
     bindE (get config ''inject'') (\<lambda>injectValue.
     Inr ((truthy isValue \<and> truthy proxyValue) \<or>
          (truthy isValue \<and> truthy injectValue) \<or>
          (truthy proxyValue \<and> truthy injectValue)))))"

definition resolve ::
  "collaborators \<Rightarrow> resolver \<Rightarrow> ref \<Rightarrow> json \<Rightarrow> json \<Rightarrow> json \<Rightarrow> reply promise \<times> resolver"
where
  "resolve env st rc req imposterState options =
     tryS (hasMultipleTypes (deref st rc), st) (\<lambda>multiple st.
       if multiple
       then (Rejected (ValidationError ''each response object must have only one response type''
                         (deref st rc)), st)
       else
         tryS (clone req, st) (\<lambda>cloned st.
         thenS (thenS (processResponse env st rc cloned imposterState options)
           (\<lambda>response st1.
              tryS (get (deref st1 rc) ''proxy'', st1) (\<lambda>proxyValue st1.
                if truthy proxyValue then (Fulfilled response, st1)
                else (case response of
                        Response l \<Rightarrow>
                          tryS (get (deref st1 rc) ''_behaviors'', st1) (\<lambda>behaviors st1.
                          thenP (execute env req (readAt st1 l) behaviors) st1 (\<lambda>out st2.
                            (Fulfilled (Response l), writeAt st2 l out)))
                      | _ \<Rightarrow> (Fulfilled response, st1)))))
           (\<lambda>response st1.
              if proxy env \<noteq> None then (Fulfilled response, st1)
              else
                tryS (get (deref st1 rc) ''proxy'', st1) (\<lambda>proxyValue st1.
                  if truthy proxyValue then (Fulfilled response, st1)
                  else (case response of
                          Response l \<Rightarrow> (Fulfilled (Wrapped l), st1)
                        | _ \<Rightarrow> (Fulfilled response, st1))))))"

subsection \<open>Completing an out-of-process proxy\<close>

text \<open>
  The key of \<open>resolveProxy\<close> is the name the caller indexes \<open>pendingProxyResolutions\<close>
  with; the controller passes the path segment of the callback URL, a string. A plain
  object answers a name that is not among its own entries from \<open>Object.prototype\<close>: for
  the names below the lookup gives one of the prototype's functions, or the prototype
  itself, and that value is truthy.
\<close>

definition inheritedNames :: "string list" where
  "inheritedNames =
     [''constructor'', ''__defineGetter__'', ''__defineSetter__'', ''hasOwnProperty'',
      ''__lookupGetter__'', ''__lookupSetter__'', ''isPrototypeOf'', ''propertyIsEnumerable'',
      ''toString'', ''valueOf'', ''__proto__'', ''toLocaleString'']"

text \<open>
  With a pending entry, \<open>resolveProxy\<close> completes the exchange. With an inherited value
  it takes the same branch: the value has no \<open>startTime\<close>, so the response time written
  to the proxy response is \<open>NaN\<close>, and it has no \<open>responseConfig\<close>, so reading
  \<open>_behaviors\<close> of it raises before the behaviour pipeline is called. The \<open>recordMatch\<close>
  function that \<open>resolveProxy\<close> attaches to the response is a closure for the protocol
  to call later; it is not a JSON value and the response object is kept without it.
\<close>

definition resolveProxy ::
  "collaborators \<Rightarrow> resolver \<Rightarrow> ref \<Rightarrow> string \<Rightarrow> ref promise \<times> resolver"
where
  "resolveProxy env st proxyResponse proxyResolutionKey =
     (case pendingProxyResolutions st proxyResolutionKey of
        Some pendingProxyConfig \<Rightarrow>
          tryS (put (deref st proxyResponse) ''_proxyResponseTime''
                  (JNum (clock env - startTime pendingProxyConfig)), st) (\<lambda>response st.
          (let st1 = assign st proxyResponse response
           in tryS (get (deref st1 (responseConfig pendingProxyConfig)) ''_behaviors'', st1)
                (\<lambda>behaviors st1.
          thenP (execute env (request pendingProxyConfig) response behaviors) st1 (\<lambda>response st2.
          (let st3 = assign st2 proxyResponse response
           in tryS (recordProxyResponse env st3 (deref st3 (responseConfig pendingProxyConfig))
                      (request pendingProxyConfig) response) (\<lambda>_ st4.
                (Fulfilled proxyResponse,
                 st4\<lparr>pendingProxyResolutions :=
                       (pendingProxyResolutions st4)(proxyResolutionKey := None)\<rparr>)))))))
      | None \<Rightarrow>
          if proxyResolutionKey \<in> set inheritedNames
          then tryS (put (deref st proxyResponse) ''_proxyResponseTime'' JNaN, st) (\<lambda>response st.
                 (Rejected TypeError, assign st proxyResponse response))
          else
            (Rejected (MissingResourceError ''invalid proxy resolution key''
                         (callbackURL env @ ''/'' @ proxyResolutionKey)),
             logError st [(''Invalid proxy resolution key: '', JStr proxyResolutionKey)]))"

section \<open>Notions of the specification\<close>

text \<open>The number of response types (static, dynamic, proxy) that a response
  configuration has set, as the resolver tests them: by the truthiness of the field.\<close>

definition tagsSet :: "json \<Rightarrow> nat" where
  "tagsSet config =
     length (filter (\<lambda>k. case get config k of Inr v \<Rightarrow> truthy v | Inl e \<Rightarrow> False)
               [''is'', ''inject'', ''proxy''])"


text \<open>Every pending resolution key is the decimal text of a number below the next key
  to be allocated.\<close>

definition keysBelowNext :: "resolver \<Rightarrow> bool" where
  "keysBelowNext st =
     (\<forall>k \<in> dom (pendingProxyResolutions st). \<exists>n < nextProxyResolutionKey st. k = decimal n)"

text \<open>The number that a decimal text stands for.\<close>

definition digitValue :: "char \<Rightarrow> nat" where
  "digitValue c = length (takeWhile (\<lambda>d. d \<noteq> c) ''0123456789'')"

definition numberOf :: "string \<Rightarrow> nat" where
  "numberOf s = foldl (\<lambda>a c. 10 * a + digitValue c) 0 s"






text \<open>
  Collaborators for evaluating the resolver on concrete exchanges: a protocol
  implemented out of process and one with an in-process proxy that answers every request
  with the same response; a behaviour pipeline that changes nothing, injected logic that
  returns an empty response, no injected predicates, selectors that match nothing, and
  a stub repository that puts every new rule last. A third one has a behaviour pipeline
  that carries out a \<open>decorate\<close> behaviour by marking the response.
\<close>

definition outOfProcess :: collaborators where
  "outOfProcess =
     \<lparr>proxy = None,
      callbackURL = ''http://localhost:2525/imposters/4545/_requests'',
      execute = (\<lambda>req response behaviors. Fulfilled response),
      evalInjection = (\<lambda>source config state.
        \<lparr>calledBack = None, outcome = Inr (JObj []), calledLater = None\<rparr>),
      evalGenerator = (\<lambda>source req. Inr []),
      xpathSelect = (\<lambda>sel ns xml. JUndefined),
      jsonpathSelect = (\<lambda>sel js. JUndefined),
      downcastInjectionConfig = (\<lambda>config. config),
      clock = 0,
      clockAfterProxy = 0,
      repositoryAddStub = (\<lambda>store rules newStub beforeResponse. rules @ [newStub])\<rparr>"

definition inProcess :: collaborators where
  "inProcess =
     outOfProcess\<lparr>proxy := Some (\<lambda>target req config details.
                                   Fulfilled (JObj [(''statusCode'', JNum 200)]))\<rparr>"


text \<open>
  A repository of two rules for evaluating the recording engine: the first rule has no
  predicates and holds a proxy configuration in the given mode, the second matches the
  path \<open>/\<close> and holds a static response.
\<close>

definition exampleConfig :: "string \<Rightarrow> json" where
  "exampleConfig mode =
     JObj [(''proxy'', JObj [(''to'', JStr ''http://origin''), (''mode'', JStr mode)])]"

definition exampleState :: "string \<Rightarrow> resolver" where
  "exampleState mode =
     create [exampleConfig mode, JObj [(''is'', JObj [(''statusCode'', JNum 200)])]]
       [\<lparr>predicates = JArr [], responses = [0]\<rparr>,
        \<lparr>predicates = JArr [JObj [(''equals'', JObj [(''path'', JStr ''/'')])]],
         responses = [1]\<rparr>]"

text \<open>The part of the state that the two-phase proxy handshake owns, and whether a
  promise is fulfilled in the end.\<close>

definition keyState :: "resolver \<Rightarrow> (string \<rightharpoonup> pending) \<times> nat" where
  "keyState st = (pendingProxyResolutions st, nextProxyResolutionKey st)"

primrec fulfilled :: "'a promise \<Rightarrow> bool" where
  "fulfilled (Fulfilled v) = True"
| "fulfilled (Rejected e) = False"
| "fulfilled Pending = False"
| "fulfilled (Delayed n p) = fulfilled p"

text \<open>The handshake state after a delegation has stored an entry under the next key,
  and after the completion of a key has removed its entry.\<close>

definition delegated :: "resolver \<Rightarrow> pending \<Rightarrow> (string \<rightharpoonup> pending) \<times> nat" where
  "delegated st entry =
     ((pendingProxyResolutions st)(decimal (nextProxyResolutionKey st) \<mapsto> entry),
      nextProxyResolutionKey st + 1)"

definition completed ::
  "string \<Rightarrow> (string \<rightharpoonup> pending) \<times> nat \<Rightarrow> (string \<rightharpoonup> pending) \<times> nat"
where
  "completed key ks = ((fst ks)(key := None), snd ks)"

text \<open>The example repository with one delegated exchange pending under key 0, and the
  response object that the protocol hands in for it.\<close>

definition examplePending :: "string \<Rightarrow> resolver" where
  "examplePending mode =
     (exampleState mode)
       \<lparr>objects := objects (exampleState mode) @ [JObj [(''statusCode'', JNum 201)]],
        pendingProxyResolutions :=
          [''0'' \<mapsto> \<lparr>responseConfig = 0, request = JObj [(''path'', JStr ''/orders'')],
                  startTime = 0, requestDetails = JUndefined\<rparr>],
        nextProxyResolutionKey := 1\<rparr>"

text \<open>
  A repository of two rules that each hold a proxy configuration in proxyAlways mode;
  the two configurations differ in the origin they proxy to and in nothing else.
\<close>

definition originA :: json where
  "originA = JObj [(''proxy'', JObj [(''to'', JStr ''http://a''), (''mode'', JStr ''proxyAlways'')])]"

definition originB :: json where
  "originB = JObj [(''proxy'', JObj [(''to'', JStr ''http://b''), (''mode'', JStr ''proxyAlways'')])]"

definition twoOrigins :: resolver where
  "twoOrigins =
     create [originA, originB]
       [\<lparr>predicates = JArr [JObj [(''equals'', JObj [(''path'', JStr ''/a'')])]],
         responses = [0]\<rparr>,
        \<lparr>predicates = JArr [JObj [(''equals'', JObj [(''path'', JStr ''/b'')])]],
         responses = [1]\<rparr>]"



section \<open>Auxiliary facts\<close>





lemma digit_in: "d < 10 \<Longrightarrow> digit d \<in> set ''0123456789''"
proof -
  assume "d < 10"
  then have "d \<in> {0, 1, 2, 3, 4, 5, 6, 7, 8, 9}" by auto
  then show ?thesis
    by (auto simp: digit_def)
qed

lemma decimal_digits: "c \<in> set (decimal n) \<Longrightarrow> c \<in> set ''0123456789''"
proof (induction n rule: decimal.induct)
  case (1 n)
  show ?case
  proof (cases "n < 10")
    case True
    with 1(2) have "c = digit n" by (simp add: decimal.simps)
    then show ?thesis using digit_in [OF True] by simp
  next
    case False
    with 1(2) have "c \<in> set (decimal (n div 10)) \<or> c = digit (n mod 10)"
      by (subst (asm) decimal.simps) auto
    then show ?thesis
      using 1(1) [OF False] digit_in [of "n mod 10"] by auto
  qed
qed

lemma digitValue_digit: "d < 10 \<Longrightarrow> digitValue (digit d) = d"
proof -
  assume "d < 10"
  then have "d \<in> {0, 1, 2, 3, 4, 5, 6, 7, 8, 9}" by auto
  then show ?thesis
    by (auto simp: digit_def digitValue_def)
qed

lemma numberOf_snoc: "numberOf (s @ [c]) = 10 * numberOf s + digitValue c"
  by (simp add: numberOf_def)

lemma numberOf_decimal: "numberOf (decimal n) = n"
proof (induction n rule: decimal.induct)
  case (1 n)
  show ?case
  proof (cases "n < 10")
    case True
    then show ?thesis
      by (subst decimal.simps) (simp add: numberOf_def digitValue_digit)
  next
    case False
    then show ?thesis
      using 1 [OF False]
      by (subst decimal.simps) (simp add: numberOf_snoc digitValue_digit)
  qed
qed

lemma decimal_inj: "decimal n = decimal m \<Longrightarrow> n = m"
  by (metis numberOf_decimal)

lemma inherited_letter: "k \<in> set inheritedNames \<Longrightarrow> CHR ''_'' \<in> set k \<or> CHR ''t'' \<in> set k \<or> CHR ''e'' \<in> set k"
  by (auto simp: inheritedNames_def)

lemma inherited_not_decimal: "decimal n \<notin> set inheritedNames"
  using inherited_letter [of "decimal n"] decimal_digits [of _ n] by fastforce


lemma logError_Nil: "logError st [] = st"
  by (simp add: logError_def)

lemma predicatesFrom_lines:
  "predicatesFrom env req ms = (ls, Inr ps) \<Longrightarrow> ls = []"
proof (induction ms arbitrary: ls ps)
  case Nil
  then show ?case by simp
next
  case (Cons m ms)
  obtain l2 r2 where rest: "predicatesFrom env req ms = (l2, r2)"
    by (cases "predicatesFrom env req ms")
  show ?case
  proof (cases r2)
    case (Inl e)
    with Cons.prems rest show ?thesis
      by (simp add: bindE_def split: sum.splits prod.splits)
  next
    case (Inr rs)
    with rest Cons.IH have "l2 = []" by simp
    with Cons.prems rest show ?thesis
      by (simp split: sum.splits prod.splits)
  qed
qed

lemma predicatesFor_lines:
  "predicatesFor env req ms = (ls, Inr ps) \<Longrightarrow> ls = []"
  by (cases ms) (simp_all add: predicatesFor_def predicatesFrom_lines)

lemma generatedPredicates_Inr:
  assumes "fst (generatedPredicates env st rc req) = Inr preds"
  shows "generatedPredicates env st' rc req = (Inr preds, st')"
proof (cases "bindE (get rc ''proxy'') (\<lambda>p. get p ''predicateGenerators'')")
  case (Inl e)
  with assms show ?thesis by (simp add: generatedPredicates_def)
next
  case (Inr g)
  obtain ls r where p: "predicatesFor env req (if truthy g then g else JArr []) = (ls, r)"
    by (cases "predicatesFor env req (if truthy g then g else JArr [])")
  with assms Inr have r: "r = Inr preds" by (simp add: generatedPredicates_def)
  with p have "ls = []" by (simp add: predicatesFor_lines)
  with p r Inr show ?thesis by (simp add: generatedPredicates_def logError_Nil)
qed









lemma record_new_rule:
  assumes p: "get rc ''proxy'' = Inr p"
    and mode: "get p ''mode'' = Inr m"
    and nt: "m \<noteq> JStr ''proxyTransparent''"
    and gen: "fst (generatedPredicates env st rc req) = Inr preds"
    and scan: "m = JStr ''proxyAlways'' \<longrightarrow>
                 fst (indexOfStubToAddResponseTo env st rc req) = Inr (- 1)"
    and resp: "newIsResponse response p = Inr sr"
  shows "recordProxyResponse env st rc req response =
           (Inr (), st\<lparr>objects := objects st @ [sr],
                       stubs := repositoryAddStub env (objects st @ [sr]) (stubs st)
                                  \<lparr>predicates = JArr preds, responses = [length (objects st)]\<rparr>
                                  (if m = JStr ''proxyAlways'' then None else Some rc)\<rparr>)"
proof -
  have new: "addNewStub env st rc req response =
           (Inr (), st\<lparr>objects := objects st @ [sr],
                       stubs := repositoryAddStub env (objects st @ [sr]) (stubs st)
                                  \<lparr>predicates = JArr preds, responses = [length (objects st)]\<rparr>
                                  (if m = JStr ''proxyAlways'' then None else Some rc)\<rparr>)"
    by (simp add: addNewStub_def bindS_def bindE_def generatedPredicates_Inr [OF gen]
          p mode resp alloc_def addStub_def)
  show ?thesis
  proof (cases "m = JStr ''proxyAlways''")
    case True
    with scan have idx: "indexOfStubToAddResponseTo env st rc req = (Inr (- 1), st)"
      by (simp add: indexOfStubToAddResponseTo_def bindS_def generatedPredicates_Inr [OF gen])
    have can: "canAddResponseToExistingStub env st rc req = (Inr False, st)"
      by (simp add: canAddResponseToExistingStub_def bindS_def idx)
    show ?thesis
      using True by (simp add: recordProxyResponse_def bindS_def bindE_def p mode can new)
  next
    case False
    then show ?thesis
      using nt by (simp add: recordProxyResponse_def bindS_def bindE_def p mode new)
  qed
qed










lemma hasMultipleTypes_single:
  assumes "get c ''is'' = Inr i" "get c ''proxy'' = Inr p" "get c ''inject'' = Inr j"
  shows "hasMultipleTypes c = Inr ((truthy i \<and> truthy p) \<or> (truthy i \<and> truthy j) \<or> (truthy p \<and> truthy j))"
  using assms by (simp add: hasMultipleTypes_def bindE_def)

lemma deref_valid: "deref st rc = JObj kvs \<Longrightarrow> rc < length (objects st)"
  by (cases "rc < length (objects st)") (simp_all add: deref_def)

lemma deref_assign: "rc < length (objects st) \<Longrightarrow> deref (assign st rc v) rc = v"
  by (simp add: deref_def assign_def)

lemma setMetadata_mode:
  assumes cfg: "deref st rc = JObj kvs" and p: "map_of kvs ''proxy'' = Some (JObj pkvs)"
  shows "setMetadata st rc ''proxy'' [(''mode'', JStr ''proxyOnce'')] =
           (Inr (), assign st rc
              (JObj (AList.update ''proxy''
                 (JObj (AList.update ''mode'' (JStr ''proxyOnce'') pkvs)) kvs)))"
  using assms by (simp add: setMetadata_def bindE_def)

lemma tryS_Inr: "tryS (Inr x, st) f = f x st"
  by (simp add: tryS_def)

lemma bindE_Inr: "bindE (Inr x) f = f x"
  by (simp add: bindE_def)

lemma proxyAndRecord_unknown_mode:
  assumes cfg: "deref st rc = JObj kvs" and p: "map_of kvs ''proxy'' = Some (JObj pkvs)"
    and mode: "get (JObj pkvs) ''mode'' = Inr mode"
    and unknown: "mode \<notin> set [JStr ''proxyOnce'', JStr ''proxyAlways'', JStr ''proxyTransparent'']"
  shows "proxyAndRecord env st rc req details =
         proxyAndRecord env
           (assign st rc (JObj (AList.update ''proxy''
              (JObj (AList.update ''mode'' (JStr ''proxyOnce'') pkvs)) kvs)))
           rc req details"
proof -
  let ?p = "JObj (AList.update ''mode'' (JStr ''proxyOnce'') pkvs)"
  let ?c = "JObj (AList.update ''proxy'' ?p kvs)"
  have valid: "rc < length (objects st)" using cfg by (rule deref_valid)
  have d: "deref (assign st rc ?c) rc = ?c" using valid by (rule deref_assign)
  have g1: "get (deref st rc) ''proxy'' = Inr (JObj pkvs)"
    using cfg p by simp
  have g2: "get ?c ''proxy'' = Inr ?p"
    by (simp add: update_conv')
  have g3: "get ?p ''mode'' = Inr (JStr ''proxyOnce'')"
    by (simp add: update_conv')
  have s: "setMetadata st rc ''proxy'' [(''mode'', JStr ''proxyOnce'')] = (Inr (), assign st rc ?c)"
    by (rule setMetadata_mode [OF cfg p])
  show ?thesis
    unfolding proxyAndRecord_def
    using unknown
    by (simp add: g1 g2 g3 mode d s bindE_Inr tryS_Inr del: get.simps)
qed










lemma resolve_proxy_only:
  assumes i: "get (deref st rc) ''is'' = Inr i" and ni: "\<not> truthy i"
    and p: "get (deref st rc) ''proxy'' = Inr p" and tp: "truthy p"
    and j: "get (deref st rc) ''inject'' = Inr j" and nj: "\<not> truthy j"
    and req: "clone req = Inr cloned"
  shows "resolve env st rc req imposterState options =
     thenS (thenS (proxyAndRecord env st rc cloned options)
           (\<lambda>response st1.
              tryS (get (deref st1 rc) ''proxy'', st1) (\<lambda>proxyValue st1.
                if truthy proxyValue then (Fulfilled response, st1)
                else (case response of
                        Response l \<Rightarrow>
                          tryS (get (deref st1 rc) ''_behaviors'', st1) (\<lambda>behaviors st1.
                          thenP (execute env req (readAt st1 l) behaviors) st1 (\<lambda>out st2.
                            (Fulfilled (Response l), writeAt st2 l out)))
                      | _ \<Rightarrow> (Fulfilled response, st1)))))
           (\<lambda>response st1.
              if proxy env \<noteq> None then (Fulfilled response, st1)
              else
                tryS (get (deref st1 rc) ''proxy'', st1) (\<lambda>proxyValue st1.
                  if truthy proxyValue then (Fulfilled response, st1)
                  else (case response of
                          Response l \<Rightarrow> (Fulfilled (Wrapped l), st1)
                        | _ \<Rightarrow> (Fulfilled response, st1))))"
proof -
  have multi: "hasMultipleTypes (deref st rc) = Inr False"
    using hasMultipleTypes_single [OF i p j] ni nj by simp
  have proc: "processResponse env st rc cloned imposterState options
              = proxyAndRecord env st rc cloned options"
    using ni tp by (simp add: processResponse_def i p tryS_Inr)
  show ?thesis
    unfolding resolve_def by (simp add: multi tryS_Inr proc req)
qed

lemma bindS_keys:
  assumes "\<And>x s. keyState (snd (f x s)) = keyState s"
  shows "keyState (snd (bindS m f)) = keyState (snd m)"
  using assms by (cases m) (auto simp: bindS_def split: sum.splits)

lemma tryS_keys:
  assumes "\<And>x s. keyState (snd (f x s)) = keyState s"
  shows "keyState (snd (tryS m f)) = keyState (snd m)"
  using assms by (cases m) (auto simp: tryS_def split: sum.splits)

lemma thenP_keys:
  assumes "\<And>x s. keyState (snd (f x s)) = keyState s"
  shows "keyState (snd (thenP p st f)) = keyState st"
  using assms by (induction p) (auto split: prod.splits)

lemma thenS_keys:
  assumes "\<And>x s. keyState (snd (f x s)) = keyState s"
  shows "keyState (snd (thenS m f)) = keyState (snd m)"
  using assms by (simp add: thenS_def thenP_keys)

lemma keyState_simps [simp]:
  "keyState (logError st ls) = keyState st"
  "keyState (assign st r v) = keyState st"
  "keyState (snd (alloc st v)) = keyState st"
  "keyState (addStub env st n a) = keyState st"
  "keyState (writeAt st l v) = keyState st"
  "keyState (addResponse st i r) = keyState st"
  by (simp_all add: keyState_def logError_def assign_def alloc_def addStub_def addResponse_def
        writeAt_def)

lemma generatedPredicates_keys [simp]:
  "keyState (snd (generatedPredicates env st rc req)) = keyState st"
  by (simp add: generatedPredicates_def split: sum.splits prod.splits)

lemma indexOf_keys [simp]:
  "keyState (snd (indexOfStubToAddResponseTo env st rc req)) = keyState st"
  by (simp add: indexOfStubToAddResponseTo_def bindS_keys)

lemma canAdd_keys [simp]:
  "keyState (snd (canAddResponseToExistingStub env st rc req)) = keyState st"
  by (simp add: canAddResponseToExistingStub_def bindS_keys)

lemma alloc_keys: "alloc st v = (r, st') \<Longrightarrow> keyState st' = keyState st"
  by (auto simp: alloc_def keyState_def)

lemma addNewResponse_keys [simp]:
  "keyState (snd (addNewResponse env st rc req response)) = keyState st"
  unfolding addNewResponse_def
  by (subst bindS_keys) (auto intro!: bindS_keys [THEN trans] dest: alloc_keys split: prod.splits)

lemma addNewStub_keys [simp]:
  "keyState (snd (addNewStub env st rc req response)) = keyState st"
  unfolding addNewStub_def
  by (subst bindS_keys)
     (auto intro!: bindS_keys [THEN trans] dest: alloc_keys simp: Let_def split: prod.splits)

lemma recordProxyResponse_keys [simp]:
  "keyState (snd (recordProxyResponse env st rc req response)) = keyState st"
  unfolding recordProxyResponse_def
  by (subst bindS_keys) (auto intro!: bindS_keys [THEN trans])

lemma inject_keys [simp]:
  "keyState (snd (inject env st req fn imposterState)) = keyState st"
  unfolding inject_def Let_def
  by (subst tryS_keys, subst tryS_keys)
     (auto simp: keyState_def logError_def split: sum.splits option.splits)

lemma setMetadata_keys [simp]:
  "keyState (snd (setMetadata st rc t md)) = keyState st"
  by (simp add: setMetadata_def split: sum.splits)

lemma proxyAndRecord_inProcess_keys:
  assumes "proxy env = Some f"
  shows "keyState (snd (proxyAndRecord env st rc req details)) = keyState st"
  unfolding proxyAndRecord_def
  apply (subst tryS_keys)
   apply (subst tryS_keys)
    apply (subst tryS_keys)
     apply (simp add: assms)
     apply (subst tryS_keys)
      apply (subst thenP_keys)
       apply (subst tryS_keys)
        apply (clarsimp split: prod.splits)
        apply (subst tryS_keys)
         apply (subst thenP_keys)
          apply (simp add: Let_def)
          apply (subst tryS_keys)
           apply simp
          apply simp
         apply simp
        apply (simp add: alloc_keys)
       apply simp
      apply simp
     apply simp
    apply simp
   apply (simp split: if_splits)
  apply simp
  done

lemma keyState_objects [simp]: "keyState (st\<lparr>objects := xs\<rparr>) = keyState st"
  by (simp add: keyState_def)

lemma proxyAndRecord_delegate:
  assumes out: "proxy env = None"
  shows "(\<exists>pc. proxyAndRecord env st rc req details =
            (Fulfilled (ProxyRequest pc req
               (callbackURL env @ ''/'' @ decimal (nextProxyResolutionKey st))),
             snd (proxyAndRecord env st rc req details))
          \<and> keyState (snd (proxyAndRecord env st rc req details)) =
              delegated st \<lparr>responseConfig = rc, request = req, startTime = clock env,
                            requestDetails = details\<rparr>)
       \<or> (\<exists>e. fst (proxyAndRecord env st rc req details) = Rejected e)
          \<and> keyState (snd (proxyAndRecord env st rc req details)) = keyState st"
proof (cases "bindE (get (deref st rc) ''proxy'') (\<lambda>p. get p ''mode'')")
  case (Inl e)
  then show ?thesis by (simp add: proxyAndRecord_def tryS_def)
next
  case (Inr mode)
  obtain r st1 where m: "(if mode \<notin> set [JStr ''proxyOnce'', JStr ''proxyAlways'', JStr ''proxyTransparent'']
           then setMetadata st rc ''proxy'' [(''mode'', JStr ''proxyOnce'')]
           else (Inr (), st)) = (r, st1)"
    by (cases "if mode \<notin> set [JStr ''proxyOnce'', JStr ''proxyAlways'', JStr ''proxyTransparent'']
           then setMetadata st rc ''proxy'' [(''mode'', JStr ''proxyOnce'')]
           else (Inr (), st)")
  have "st1 = snd (if mode \<notin> set [JStr ''proxyOnce'', JStr ''proxyAlways'', JStr ''proxyTransparent'']
           then setMetadata st rc ''proxy'' [(''mode'', JStr ''proxyOnce'')]
           else (Inr (), st))"
    by (simp only: m snd_conv)
  then have k1: "keyState st1 = keyState st"
    by (simp split: if_splits)
  then have k1': "pendingProxyResolutions st1 = pendingProxyResolutions st"
      "nextProxyResolutionKey st1 = nextProxyResolutionKey st"
    by (simp_all add: keyState_def)
  show ?thesis
  proof (cases r)
    case (Inl e)
    with Inr m k1 show ?thesis
      by (simp add: proxyAndRecord_def tryS_def del: set_simps)
  next
    case r: (Inr u)
    show ?thesis
    proof (cases "get (deref st1 rc) ''proxy''")
      case (Inl e)
      with Inr m r k1 show ?thesis
        by (simp add: proxyAndRecord_def tryS_def del: set_simps)
    next
      case pc: (Inr pc)
      with Inr m r k1' out show ?thesis
        by (simp add: proxyAndRecord_def tryS_def Let_def delegated_def keyState_def del: set_simps)
    qed
  qed
qed

lemma cloneAt_keys [simp]: "keyState (snd (cloneAt st l)) = keyState st"
  by (simp add: cloneAt_def alloc_def split: sum.splits)

lemma processResponse_keys:
  "keyState (snd (processResponse env st rc req imposterState details)) = keyState st
   \<or> proxy env = None
     \<and> keyState (snd (processResponse env st rc req imposterState details)) =
         delegated st \<lparr>responseConfig = rc, request = req, startTime = clock env,
                       requestDetails = details\<rparr>"
proof (cases "get (deref st rc) ''is''")
  case (Inl e)
  then show ?thesis by (simp add: processResponse_def tryS_def)
next
  case i: (Inr i)
  show ?thesis
  proof (cases "truthy i")
    case True
    have "keyState (snd (tryS (cloneAt st (rc, [''is'']))
             (\<lambda>copy st1. (Fulfilled (Response copy), st1)))) = keyState st"
      by (subst tryS_keys) simp_all
    with i True show ?thesis by (simp add: processResponse_def tryS_Inr del: get.simps)
  next
    case ni: False
    show ?thesis
    proof (cases "get (deref st rc) ''proxy''")
      case (Inl e)
      with i ni show ?thesis by (simp add: processResponse_def tryS_def)
    next
      case p: (Inr p)
      show ?thesis
      proof (cases "truthy p")
        case True
        then have eq: "processResponse env st rc req imposterState details
                       = proxyAndRecord env st rc req details"
          using i ni p by (simp add: processResponse_def tryS_def)
        show ?thesis
        proof (cases "proxy env")
          case None
          from proxyAndRecord_delegate [OF None, of st rc req details] show ?thesis
            unfolding eq using None by auto
        next
          case (Some f)
          then show ?thesis
            unfolding eq by (simp add: proxyAndRecord_inProcess_keys)
        qed
      next
        case np: False
        have k: "keyState (snd (tryS (get (deref st rc) ''inject'', st) (\<lambda>injectValue st.
               if truthy injectValue
               then thenS (inject env st req injectValue imposterState) (\<lambda>response st1.
                      case alloc st1 response of (r, st2) \<Rightarrow> (Fulfilled (Response (r, [])), st2))
               else tryS (clone (deref st rc), st) (\<lambda>source st.
                      (Rejected (ValidationError ''unrecognized response type'' source), st)))))
             = keyState st"
          apply (subst tryS_keys)
           apply (simp add: tryS_keys)
           apply (rule impI)
           apply (subst thenS_keys)
            apply (simp add: alloc_def)
           apply simp
          apply simp
          done
        have "processResponse env st rc req imposterState details =
              tryS (get (deref st rc) ''inject'', st) (\<lambda>injectValue st.
               if truthy injectValue
               then thenS (inject env st req injectValue imposterState) (\<lambda>response st1.
                      case alloc st1 response of (r, st2) \<Rightarrow> (Fulfilled (Response (r, [])), st2))
               else tryS (clone (deref st rc), st) (\<lambda>source st.
                      (Rejected (ValidationError ''unrecognized response type'' source), st)))"
          using ni np by (simp add: processResponse_def i p tryS_Inr del: get.simps)
        with k show ?thesis by simp
      qed
    qed
  qed
qed

lemma resolve_tail_keys:
  "keyState (snd (thenS (thenS m
           (\<lambda>response st1.
              tryS (get (deref st1 rc) ''proxy'', st1) (\<lambda>proxyValue st1.
                if truthy proxyValue then (Fulfilled response, st1)
                else (case response of
                        Response l \<Rightarrow>
                          tryS (get (deref st1 rc) ''_behaviors'', st1) (\<lambda>behaviors st1.
                          thenP (execute env req (readAt st1 l) behaviors) st1 (\<lambda>out st2.
                            (Fulfilled (Response l), writeAt st2 l out)))
                      | _ \<Rightarrow> (Fulfilled response, st1)))))
           (\<lambda>response st1.
              if proxy env \<noteq> None then (Fulfilled response, st1)
              else
                tryS (get (deref st1 rc) ''proxy'', st1) (\<lambda>proxyValue st1.
                  if truthy proxyValue then (Fulfilled response, st1)
                  else (case response of
                          Response l \<Rightarrow> (Fulfilled (Wrapped l), st1)
                        | _ \<Rightarrow> (Fulfilled response, st1)))))) = keyState (snd m)"
  apply (subst thenS_keys)
   apply (simp add: tryS_keys [THEN trans])
   apply (rule impI)
   apply (subst tryS_keys)
    apply (simp split: reply.splits)
   apply simp
  apply (subst thenS_keys)
   apply (subst tryS_keys)
    apply (auto split: reply.splits)[1]
    apply (subst tryS_keys)
     apply (subst thenP_keys)
      apply simp
     apply simp
    apply simp
   apply simp
  apply simp
  done

lemma resolve_keys:
  "keyState (snd (resolve env st rc req imposterState options)) = keyState st
   \<or> proxy env = None
     \<and> (\<exists>entry. keyState (snd (resolve env st rc req imposterState options)) =
                  delegated st entry)"
proof (cases "hasMultipleTypes (deref st rc)")
  case (Inl e)
  then show ?thesis by (simp add: resolve_def tryS_def)
next
  case (Inr multiple)
  show ?thesis
  proof (cases multiple)
    case True
    with Inr show ?thesis by (simp add: resolve_def tryS_def)
  next
    case False
    show ?thesis
    proof (cases "clone req")
      case (Inl e)
      with Inr False show ?thesis by (simp add: resolve_def tryS_def)
    next
      case c: (Inr cloned)
      have "keyState (snd (resolve env st rc req imposterState options))
            = keyState (snd (processResponse env st rc cloned imposterState options))"
        unfolding resolve_def
        by (simp only: Inr False c tryS_Inr if_False resolve_tail_keys)
      then show ?thesis
        using processResponse_keys [of env st rc cloned imposterState options]
        by auto
    qed
  qed
qed

lemma thenP_completed:
  assumes "\<And>v s. keyState (snd (f v s)) =
             (if fulfilled (fst (f v s)) then completed key (keyState s) else keyState s)"
  shows "keyState (snd (thenP p st f)) =
           (if fulfilled (fst (thenP p st f)) then completed key (keyState st) else keyState st)"
  using assms by (induction p) (auto split: prod.splits)

lemma tryS_completed:
  assumes "\<And>v s. keyState (snd (f v s)) =
             (if fulfilled (fst (f v s)) then completed key (keyState s) else keyState s)"
  shows "keyState (snd (tryS m f)) =
           (if fulfilled (fst (tryS m f)) then completed key (keyState (snd m))
            else keyState (snd m))"
  using assms by (cases m) (auto simp: tryS_def split: sum.splits)

lemma resolveProxy_keys:
  "keyState (snd (resolveProxy env st proxyResponse key)) =
     (if fulfilled (fst (resolveProxy env st proxyResponse key))
      then completed key (keyState st) else keyState st)"
proof (cases "pendingProxyResolutions st key")
  case None
  then show ?thesis by (simp add: resolveProxy_def tryS_def split: sum.splits)
next
  case (Some entry)
  have last: "keyState (snd (tryS (recordProxyResponse env s' c r response) (\<lambda>_ st4.
                (Fulfilled proxyResponse,
                 st4\<lparr>pendingProxyResolutions := (pendingProxyResolutions st4)(key := None)\<rparr>))))
        = (if fulfilled (fst (tryS (recordProxyResponse env s' c r response) (\<lambda>_ st4.
                (Fulfilled proxyResponse,
                 st4\<lparr>pendingProxyResolutions := (pendingProxyResolutions st4)(key := None)\<rparr>))))
           then completed key (keyState s') else keyState s')" for s' c r response
  proof -
    have prem: "keyState (snd ((\<lambda>_ st4. (Fulfilled proxyResponse,
                 st4\<lparr>pendingProxyResolutions := (pendingProxyResolutions st4)(key := None)\<rparr>)) v s))
          = (if fulfilled (fst ((\<lambda>_ st4. (Fulfilled proxyResponse,
                 st4\<lparr>pendingProxyResolutions := (pendingProxyResolutions st4)(key := None)\<rparr>)) v s))
             then completed key (keyState s) else keyState s)" for v :: unit and s
      by (simp add: keyState_def completed_def)
    show ?thesis
      using tryS_completed [of "\<lambda>_ st4. (Fulfilled proxyResponse,
                 st4\<lparr>pendingProxyResolutions := (pendingProxyResolutions st4)(key := None)\<rparr>)"
             key "recordProxyResponse env s' c r response", OF prem]
      by simp
  qed
  let ?f3 = "\<lambda>response st2.
               tryS (recordProxyResponse env (assign st2 proxyResponse response)
                       (deref (assign st2 proxyResponse response) (responseConfig entry))
                       (request entry) response)
                 (\<lambda>_ st4. (Fulfilled proxyResponse,
                    st4\<lparr>pendingProxyResolutions := (pendingProxyResolutions st4)(key := None)\<rparr>))"
  have p3: "keyState (snd (?f3 v s)) =
              (if fulfilled (fst (?f3 v s)) then completed key (keyState s) else keyState s)" for v s
    using last [of "assign s proxyResponse v"] by simp
  have p2: "keyState (snd (thenP p s ?f3)) =
              (if fulfilled (fst (thenP p s ?f3)) then completed key (keyState s) else keyState s)"
    for p s
    by (rule thenP_completed [of ?f3 key, OF p3])
  let ?f1 = "\<lambda>response st.
               tryS (get (deref (assign st proxyResponse response) (responseConfig entry)) ''_behaviors'',
                     assign st proxyResponse response)
                 (\<lambda>behaviors st1. thenP (execute env (request entry) response behaviors) st1 ?f3)"
  have p1: "keyState (snd (?f1 v s)) =
              (if fulfilled (fst (?f1 v s)) then completed key (keyState s) else keyState s)" for v s
    using tryS_completed [of "\<lambda>behaviors st1. thenP (execute env (request entry) v behaviors) st1 ?f3"
             key "(get (deref (assign s proxyResponse v) (responseConfig entry)) ''_behaviors'',
                   assign s proxyResponse v)", OF p2]
    by simp
  have "resolveProxy env st proxyResponse key =
          tryS (put (deref st proxyResponse) ''_proxyResponseTime''
                  (JNum (clock env - startTime entry)), st) ?f1"
    by (simp add: resolveProxy_def Some Let_def)
  then show ?thesis
    using tryS_completed [of ?f1 key "(put (deref st proxyResponse) ''_proxyResponseTime''
                  (JNum (clock env - startTime entry)), st)", OF p1]
    by simp
qed

lemma resolveProxy_fulfilled_pending:
  "fulfilled (fst (resolveProxy env st proxyResponse key)) \<Longrightarrow>
   key \<in> dom (pendingProxyResolutions st)"
  by (cases "pendingProxyResolutions st key")
     (auto simp: resolveProxy_def tryS_def split: sum.splits if_splits)

lemma delegate_fulfilled:
  assumes out: "proxy env = None"
    and cfg: "deref st rc = JObj kvs" and p: "map_of kvs ''proxy'' = Some (JObj pkvs)"
  shows "fulfilled (fst (proxyAndRecord env st rc req details))"
proof -
  have valid: "rc < length (objects st)" using cfg by (rule deref_valid)
  have g1: "get (deref st rc) ''proxy'' = Inr (JObj pkvs)" using cfg p by simp
  obtain mode where mode: "get (JObj pkvs) ''mode'' = Inr mode" by simp
  let ?c = "JObj (AList.update ''proxy'' (JObj (AList.update ''mode'' (JStr ''proxyOnce'') pkvs)) kvs)"
  have d: "deref (assign st rc ?c) rc = ?c" using valid by (rule deref_assign)
  have g2: "get ?c ''proxy'' = Inr (JObj (AList.update ''mode'' (JStr ''proxyOnce'') pkvs))"
    by (simp add: update_conv')
  show ?thesis
    unfolding proxyAndRecord_def
    by (simp add: g1 g2 mode d bindE_Inr tryS_Inr out Let_def setMetadata_mode [OF cfg p]
             del: get.simps)
qed

lemma next_key_fresh:
  "keysBelowNext st \<Longrightarrow> decimal (nextProxyResolutionKey st) \<notin> dom (pendingProxyResolutions st)"
proof
  assume inv: "keysBelowNext st"
    and "decimal (nextProxyResolutionKey st) \<in> dom (pendingProxyResolutions st)"
  then obtain n where "n < nextProxyResolutionKey st"
    and "decimal (nextProxyResolutionKey st) = decimal n"
    unfolding keysBelowNext_def by blast
  then show False using decimal_inj by blast
qed

lemma keysBelowNext_delegated:
  assumes "keysBelowNext st" and "keyState st' = delegated st entry"
  shows "keysBelowNext st'"
    and "nextProxyResolutionKey st \<le> nextProxyResolutionKey st'"
    and "pendingProxyResolutions st \<subseteq>\<^sub>m pendingProxyResolutions st'"
proof -
  from assms(2) have p: "pendingProxyResolutions st' =
        (pendingProxyResolutions st)(decimal (nextProxyResolutionKey st) \<mapsto> entry)"
    and n: "nextProxyResolutionKey st' = nextProxyResolutionKey st + 1"
    by (simp_all add: keyState_def delegated_def)
  show "keysBelowNext st'"
    unfolding keysBelowNext_def
  proof
    fix k assume "k \<in> dom (pendingProxyResolutions st')"
    then consider "k = decimal (nextProxyResolutionKey st)"
      | "k \<in> dom (pendingProxyResolutions st)"
      using p by (auto split: if_splits)
    then show "\<exists>m < nextProxyResolutionKey st'. k = decimal m"
    proof cases
      case 1
      then show ?thesis using n by auto
    next
      case 2
      with assms(1) obtain m where "m < nextProxyResolutionKey st" "k = decimal m"
        unfolding keysBelowNext_def by blast
      then show ?thesis using n by (intro exI [of _ m]) simp
    qed
  qed
  show "nextProxyResolutionKey st \<le> nextProxyResolutionKey st'" using n by simp
  show "pendingProxyResolutions st \<subseteq>\<^sub>m pendingProxyResolutions st'"
    using next_key_fresh [OF assms(1)] p by (auto simp: map_le_def)
qed

lemma keysBelowNext_same:
  assumes "keysBelowNext st" and "keyState st' = keyState st"
  shows "keysBelowNext st'"
    and "nextProxyResolutionKey st \<le> nextProxyResolutionKey st'"
    and "pendingProxyResolutions st \<subseteq>\<^sub>m pendingProxyResolutions st'"
  using assms by (auto simp: keysBelowNext_def keyState_def)

lemma keysBelowNext_completed:
  assumes "keysBelowNext st" and "keyState st' = completed key (keyState st)"
  shows "keysBelowNext st'"
  using assms by (auto simp: keysBelowNext_def keyState_def completed_def split: if_splits)





lemma ex_pending_completes:
  "resolveProxy outOfProcess (examplePending ''proxyOnce'') 2 ''0'' =
     (Fulfilled 2,
      (examplePending ''proxyOnce'')
        \<lparr>objects := [exampleConfig ''proxyOnce'',
                      JObj [(''is'', JObj [(''statusCode'', JNum 200)])],
                      JObj [(''statusCode'', JNum 201), (''_proxyResponseTime'', JNum 0)],
                      JObj [(''is'', JObj [(''statusCode'', JNum 201),
                                           (''_proxyResponseTime'', JNum 0)])]],
         stubs := [\<lparr>predicates = JArr [], responses = [0]\<rparr>,
                   \<lparr>predicates = JArr [JObj [(''equals'', JObj [(''path'', JStr ''/'')])]],
                    responses = [1]\<rparr>,
                   \<lparr>predicates = JArr [], responses = [3]\<rparr>],
         pendingProxyResolutions := Map.empty\<rparr>)"
  by (simp add: resolveProxy_def examplePending_def exampleState_def exampleConfig_def create_def
        outOfProcess_def deref_def assign_def tryS_def Let_def
        recordProxyResponse_def bindS_def bindE_def addNewStub_def generatedPredicates_def
        predicatesFor_def logError_def newIsResponse_def alloc_def addStub_def)

section \<open>A new rule in proxyAlways mode\<close>

lemma twoOrigins_scan:
  "indexOfStubToAddResponseTo env twoOrigins originA req = (Inr (- 1), twoOrigins)"
  "indexOfStubToAddResponseTo env twoOrigins originB req = (Inr (- 1), twoOrigins)"
  by (simp_all add: indexOfStubToAddResponseTo_def bindS_def generatedPredicates_def bindE_def
        predicatesFor_def logError_def stubIndexFor_def twoOrigins_def originA_def originB_def
        create_def deref_def deepEqual_def)

lemma twoOrigins_record:
  "recordProxyResponse env twoOrigins originA req response =
     (Inr (), twoOrigins\<lparr>objects := [originA, originB, JObj [(''is'', response)]],
        stubs := repositoryAddStub env [originA, originB, JObj [(''is'', response)]]
                   (stubs twoOrigins) \<lparr>predicates = JArr [], responses = [2]\<rparr> None\<rparr>)"
  "recordProxyResponse env twoOrigins originB req response =
     (Inr (), twoOrigins\<lparr>objects := [originA, originB, JObj [(''is'', response)]],
        stubs := repositoryAddStub env [originA, originB, JObj [(''is'', response)]]
                   (stubs twoOrigins) \<lparr>predicates = JArr [], responses = [2]\<rparr> None\<rparr>)"
proof -
  have objs: "objects twoOrigins = [originA, originB]"
    by (simp add: twoOrigins_def create_def)
  have pa: "get originA ''proxy'' = Inr (JObj [(''to'', JStr ''http://a''), (''mode'', JStr ''proxyAlways'')])"
    and pb: "get originB ''proxy'' = Inr (JObj [(''to'', JStr ''http://b''), (''mode'', JStr ''proxyAlways'')])"
    by (simp_all add: originA_def originB_def)
  have ma: "get (JObj [(''to'', JStr ''http://a''), (''mode'', JStr ''proxyAlways'')]) ''mode''
            = Inr (JStr ''proxyAlways'')"
    and mb: "get (JObj [(''to'', JStr ''http://b''), (''mode'', JStr ''proxyAlways'')]) ''mode''
            = Inr (JStr ''proxyAlways'')"
    by simp_all
  have ga: "fst (generatedPredicates env twoOrigins originA req) = Inr []"
    and gb: "fst (generatedPredicates env twoOrigins originB req) = Inr []"
    by (simp_all add: generatedPredicates_def bindE_def predicatesFor_def originA_def originB_def)
  have ra: "newIsResponse response (JObj [(''to'', JStr ''http://a''), (''mode'', JStr ''proxyAlways'')])
            = Inr (JObj [(''is'', response)])"
    and rb: "newIsResponse response (JObj [(''to'', JStr ''http://b''), (''mode'', JStr ''proxyAlways'')])
            = Inr (JObj [(''is'', response)])"
    by (simp_all add: newIsResponse_def bindE_def)
  show "recordProxyResponse env twoOrigins originA req response =
     (Inr (), twoOrigins\<lparr>objects := [originA, originB, JObj [(''is'', response)]],
        stubs := repositoryAddStub env [originA, originB, JObj [(''is'', response)]]
                   (stubs twoOrigins) \<lparr>predicates = JArr [], responses = [2]\<rparr> None\<rparr>)"
    using record_new_rule [OF pa ma _ ga _ ra] twoOrigins_scan(1) [of env req]
    by (simp add: objs numeral_2_eq_2)
  show "recordProxyResponse env twoOrigins originB req response =
     (Inr (), twoOrigins\<lparr>objects := [originA, originB, JObj [(''is'', response)]],
        stubs := repositoryAddStub env [originA, originB, JObj [(''is'', response)]]
                   (stubs twoOrigins) \<lparr>predicates = JArr [], responses = [2]\<rparr> None\<rparr>)"
    using record_new_rule [OF pb mb _ gb _ rb] twoOrigins_scan(2) [of env req]
    by (simp add: objs numeral_2_eq_2)
qed

text \<open>
  C1, as amended: in proxyAlways mode, when the scan finds no rule whose predicates are
  deeply equal to the freshly generated ones, recording builds the new rule as the other
  recording modes do, from the generated predicates and one static response wrapping
  the observed response, and hands it to the stub repository without the originating
  response configuration; in every other recording mode the repository is given the
  originating configuration along with the rule. Where the rule goes is then what the
  repository does with a rule that comes without a configuration.
\<close>

theorem proxyAlways_new_rule_unanchored:
  assumes "get rc ''proxy'' = Inr p"
    and "get p ''mode'' = Inr m"
    and "m \<noteq> JStr ''proxyTransparent''"
    and "fst (generatedPredicates env st rc req) = Inr preds"
    and "m = JStr ''proxyAlways'' \<longrightarrow>
           fst (indexOfStubToAddResponseTo env st rc req) = Inr (- 1)"
    and "newIsResponse response p = Inr sr"
  shows "recordProxyResponse env st rc req response =
           (Inr (), st\<lparr>objects := objects st @ [sr],
                       stubs := repositoryAddStub env (objects st @ [sr]) (stubs st)
                                  \<lparr>predicates = JArr preds, responses = [length (objects st)]\<rparr>
                                  (if m = JStr ''proxyAlways'' then None else Some rc)\<rparr>)"
  using assms by (rule record_new_rule)

theorem proxyAlways_new_rule_unanchored_witness:
  "recordProxyResponse outOfProcess twoOrigins originA
     (JObj [(''path'', JStr ''/orders'')]) (JObj [(''body'', JStr ''recorded'')]) =
     (Inr (), twoOrigins
        \<lparr>objects := objects twoOrigins @ [JObj [(''is'', JObj [(''body'', JStr ''recorded'')])]],
         stubs := repositoryAddStub outOfProcess
                    (objects twoOrigins @ [JObj [(''is'', JObj [(''body'', JStr ''recorded'')])]])
                    (stubs twoOrigins)
                    \<lparr>predicates = JArr [], responses = [length (objects twoOrigins)]\<rparr> None\<rparr>)"
proof -
  have p: "get originA ''proxy'' = Inr (JObj [(''to'', JStr ''http://a''), (''mode'', JStr ''proxyAlways'')])"
    by (simp add: originA_def)
  have m: "get (JObj [(''to'', JStr ''http://a''), (''mode'', JStr ''proxyAlways'')]) ''mode''
            = Inr (JStr ''proxyAlways'')"
    and nt: "JStr ''proxyAlways'' \<noteq> JStr ''proxyTransparent''"
    by simp_all
  have g: "fst (generatedPredicates outOfProcess twoOrigins originA (JObj [(''path'', JStr ''/orders'')]))
           = Inr []"
    by (simp add: generatedPredicates_def bindE_def predicatesFor_def originA_def)
  have s: "JStr ''proxyAlways'' = JStr ''proxyAlways'' \<longrightarrow>
           fst (indexOfStubToAddResponseTo outOfProcess twoOrigins originA
                  (JObj [(''path'', JStr ''/orders'')])) = Inr (- 1)"
    by (simp add: twoOrigins_scan)
  have r: "newIsResponse (JObj [(''body'', JStr ''recorded'')])
             (JObj [(''to'', JStr ''http://a''), (''mode'', JStr ''proxyAlways'')])
           = Inr (JObj [(''is'', JObj [(''body'', JStr ''recorded'')])])"
    by (simp add: newIsResponse_def bindE_def)
  show ?thesis
    using proxyAlways_new_rule_unanchored [OF p m nt g s r] by simp
qed

text \<open>
  The claim as stated fails, whatever the stub repository does. Take the repository of
  two rules whose configurations proxy to different origins. For a request that none of
  the rules was recorded for, the scan finds nothing, whichever of the two
  configurations the exchange comes from, and the repository is handed the same new
  rule and nothing else in both cases (\<open>twoOrigins_record\<close>, for every collaborator).
  So the new rule is not both immediately after the first rule when the exchange comes
  from the first rule's configuration, and immediately after the second rule when it
  comes from the second's.
\<close>

theorem proxyAlways_not_after_origin:
  "fst (indexOfStubToAddResponseTo outOfProcess twoOrigins originA
          (JObj [(''path'', JStr ''/orders'')])) = Inr (- 1)
   \<and> fst (indexOfStubToAddResponseTo outOfProcess twoOrigins originB
          (JObj [(''path'', JStr ''/orders'')])) = Inr (- 1)
   \<and> stubs (snd (recordProxyResponse outOfProcess twoOrigins originA
              (JObj [(''path'', JStr ''/orders'')]) (JObj [(''body'', JStr ''recorded'')])))
       = stubs (snd (recordProxyResponse outOfProcess twoOrigins originB
              (JObj [(''path'', JStr ''/orders'')]) (JObj [(''body'', JStr ''recorded'')])))
   \<and> \<not> (stubs (snd (recordProxyResponse outOfProcess twoOrigins originA
                  (JObj [(''path'', JStr ''/orders'')]) (JObj [(''body'', JStr ''recorded'')])))
         = [\<lparr>predicates = JArr [JObj [(''equals'', JObj [(''path'', JStr ''/a'')])]],
             responses = [0]\<rparr>,
            \<lparr>predicates = JArr [], responses = [2]\<rparr>,
            \<lparr>predicates = JArr [JObj [(''equals'', JObj [(''path'', JStr ''/b'')])]],
             responses = [1]\<rparr>]
       \<and> stubs (snd (recordProxyResponse outOfProcess twoOrigins originB
                  (JObj [(''path'', JStr ''/orders'')]) (JObj [(''body'', JStr ''recorded'')])))
         = [\<lparr>predicates = JArr [JObj [(''equals'', JObj [(''path'', JStr ''/a'')])]],
             responses = [0]\<rparr>,
            \<lparr>predicates = JArr [JObj [(''equals'', JObj [(''path'', JStr ''/b'')])]],
             responses = [1]\<rparr>,
            \<lparr>predicates = JArr [], responses = [2]\<rparr>])"
  by (simp add: twoOrigins_scan twoOrigins_record)

section \<open>Accumulating responses in proxyAlways mode\<close>





section \<open>Response configurations with several types\<close>

text \<open>
  C3: for every response configuration in which more than one of the static (\<open>is\<close>),
  dynamic (\<open>inject\<close>) and proxy (\<open>proxy\<close>) types is set, \<open>resolve\<close> fails with a
  validation error and has no side effect: the state is returned as it was, with its
  rule repository, its pending proxy resolutions and the store that holds the response
  configuration. A type counts as set when its field is truthy, which is how the
  resolver tests it.
\<close>

theorem resolve_multiple_types:
  "1 < tagsSet (deref st rc) \<Longrightarrow>
   resolve env st rc req imposterState options =
     (Rejected (ValidationError ''each response object must have only one response type''
                  (deref st rc)), st)"
  by (cases "deref st rc")
     (auto simp: tagsSet_def resolve_def hasMultipleTypes_def tryS_def bindE_def
           split: sum.splits if_splits)

theorem resolve_multiple_types_witness:
  "resolve inProcess
     (create [JObj [(''is'', JObj [(''statusCode'', JNum 200)]),
                    (''proxy'', JObj [(''to'', JStr ''http://origin'')])]] []) 0
     (JObj []) (JObj []) JUndefined
   = (Rejected (ValidationError ''each response object must have only one response type''
        (JObj [(''is'', JObj [(''statusCode'', JNum 200)]),
               (''proxy'', JObj [(''to'', JStr ''http://origin'')])])),
      create [JObj [(''is'', JObj [(''statusCode'', JNum 200)]),
                    (''proxy'', JObj [(''to'', JStr ''http://origin'')])]] [])"
  using resolve_multiple_types
    [of "create [JObj [(''is'', JObj [(''statusCode'', JNum 200)]),
                       (''proxy'', JObj [(''to'', JStr ''http://origin'')])]] []" 0
        inProcess "JObj []" "JObj []" JUndefined]
  by (simp add: tagsSet_def create_def deref_def)

section \<open>Unknown resolution keys\<close>

lemma resolveProxy_unknown_key:
  "pendingProxyResolutions st key = None \<Longrightarrow> key \<notin> set inheritedNames \<Longrightarrow>
   resolveProxy env st proxyResponse key =
     (Rejected (MissingResourceError ''invalid proxy resolution key''
                  (callbackURL env @ ''/'' @ key)),
      logError st [(''Invalid proxy resolution key: '', JStr key)])"
  by (simp add: resolveProxy_def)

lemma resolveProxy_inherited:
  "pendingProxyResolutions st key = None \<Longrightarrow> key \<in> set inheritedNames \<Longrightarrow>
   deref st proxyResponse = JObj kvs \<Longrightarrow>
   resolveProxy env st proxyResponse key =
     (Rejected TypeError,
      assign st proxyResponse (JObj (AList.update ''_proxyResponseTime'' JNaN kvs)))"
  by (simp add: resolveProxy_def tryS_def)

text \<open>
  C4: \<open>resolveProxy\<close> with a resolution key that is not in the pending proxy
  resolutions (unknown, already consumed or forged) is to fail with a missing-resource
  error whose source is the callback address of that key, and to leave the pending
  proxy resolutions unchanged. The code looks the key up in a plain object and takes
  the missing-resource branch only when the value found is falsy. On a resolver with
  no pending entry the key \<open>constructor\<close>, which the controller passes from the path
  \<open>/_requests/constructor\<close>, finds the constructor that every object inherits:
  \<open>resolveProxy\<close> writes the response time \<open>NaN\<close> into the proxy response and raises a
  \<open>TypeError\<close>, where the key \<open>7\<close> on the same resolver gets the missing-resource
  error. The pending proxy resolutions are empty before and after both calls.
\<close>

theorem resolveProxy_inherited_key:
  "pendingProxyResolutions (create [JObj [(''body'', JStr ''late'')]] []) ''constructor'' = None
   \<and> resolveProxy outOfProcess (create [JObj [(''body'', JStr ''late'')]] []) 0 ''constructor'' =
       (Rejected TypeError,
        create [JObj [(''body'', JStr ''late''), (''_proxyResponseTime'', JNaN)]] [])
   \<and> resolveProxy outOfProcess (create [JObj [(''body'', JStr ''late'')]] []) 0 ''7'' =
       (Rejected (MissingResourceError ''invalid proxy resolution key''
                    ''http://localhost:2525/imposters/4545/_requests/7''),
        logError (create [JObj [(''body'', JStr ''late'')]] [])
          [(''Invalid proxy resolution key: '', JStr ''7'')])"
  by (simp add: resolveProxy_def inheritedNames_def create_def outOfProcess_def tryS_def
        deref_def assign_def)

section \<open>Dry runs of injected responses\<close>




section \<open>Static responses are copies\<close>








section \<open>Properties of selector value extraction\<close>

text \<open>
  C7: selector value extraction collapses its match set deterministically. It returns
  the empty string when the match set is undefined, the value itself when it is not a
  list, the bare node when the list holds exactly one node, and the whole list when it
  holds more than one node.
\<close>

theorem selectionValue_collapse:
  "selectionValue JUndefined = JStr ''''
   \<and> (v \<noteq> JUndefined \<and> (\<forall>ns. v \<noteq> JArr ns) \<longrightarrow> selectionValue v = v)
   \<and> selectionValue (JArr [n]) = n
   \<and> (1 < length ns \<longrightarrow> selectionValue (JArr ns) = JArr ns)"
  by (cases v) (simp_all add: defined_def)

theorem selectionValue_collapse_witness:
  "selectionValue JUndefined = JStr ''''
   \<and> (JBool True \<noteq> JUndefined \<and> (\<forall>ns. JBool True \<noteq> JArr ns))
   \<and> selectionValue (JBool True) = JBool True
   \<and> selectionValue (JArr [JStr ''a'']) = JStr ''a''
   \<and> 1 < length [JStr ''a'', JStr ''b'']
   \<and> selectionValue (JArr [JStr ''a'', JStr ''b'']) = JArr [JStr ''a'', JStr ''b'']"
  using selectionValue_collapse [of "JBool True" "JStr ''a''" "[JStr ''a'', JStr ''b'']"]
  by simp

section \<open>Transparent proxying\<close>

text \<open>
  C8: in proxyTransparent mode, recording a proxied exchange is a no-op. For every
  request and observed response the call returns without raising and leaves the state,
  and so the rule repository, as it was: no rule is inserted, no response appended.
\<close>

theorem recordProxyResponse_transparent:
  "get rc ''proxy'' = Inr p \<Longrightarrow> get p ''mode'' = Inr (JStr ''proxyTransparent'') \<Longrightarrow>
   recordProxyResponse env st rc req response = (Inr (), st)"
  by (simp add: recordProxyResponse_def bindS_def bindE_def)

theorem recordProxyResponse_transparent_witness:
  "recordProxyResponse outOfProcess (create [] [])
     (JObj [(''proxy'', JObj [(''mode'', JStr ''proxyTransparent'')])]) (JObj []) (JObj [])
   = (Inr (), create [] [])"
  using recordProxyResponse_transparent
    [of "JObj [(''proxy'', JObj [(''mode'', JStr ''proxyTransparent'')])]"
        "JObj [(''mode'', JStr ''proxyTransparent'')]" outOfProcess "create [] []" "JObj []" "JObj []"]
  by simp

section \<open>Resolution keys\<close>

text \<open>
  C9: resolution keys are allocated in strictly increasing order and never reused while
  an entry is pending. An entry is stored under the decimal text of its key, and
  different keys have different texts. A resolver starts with no pending entry and
  keeps every pending key below the next key to allocate; under that invariant the
  next key is fresh. A delegation to an out-of-process protocol stores the pending
  proxy resolution under the next key, moves the next key up by one and returns the
  callback address that ends in that key. \<open>resolve\<close> keeps the invariant, never lowers
  the next key and never removes or replaces a pending entry; \<open>resolveProxy\<close> keeps the
  invariant and the next key, and removes the entry of its key exactly when its promise
  is fulfilled, after which a second completion of the same key is rejected as a
  missing resource.
\<close>

theorem resolution_keys:
  assumes "keysBelowNext st"
  shows "keysBelowNext (create store repository)
     \<and> (decimal m = decimal n \<longrightarrow> m = n)
     \<and> decimal (nextProxyResolutionKey st) \<notin> dom (pendingProxyResolutions st)
     \<and> (proxy env = None \<and> deref st rc = JObj kvs \<and> map_of kvs ''proxy'' = Some (JObj pkvs) \<longrightarrow>
          (\<exists>proxyConfig. fst (proxyAndRecord env st rc req details) =
              Fulfilled (ProxyRequest proxyConfig req
                (callbackURL env @ ''/'' @ decimal (nextProxyResolutionKey st))))
          \<and> pendingProxyResolutions (snd (proxyAndRecord env st rc req details)) =
              (pendingProxyResolutions st)(decimal (nextProxyResolutionKey st) \<mapsto>
                 \<lparr>responseConfig = rc, request = req, startTime = clock env,
                  requestDetails = details\<rparr>)
          \<and> nextProxyResolutionKey (snd (proxyAndRecord env st rc req details)) =
              nextProxyResolutionKey st + 1)
     \<and> keysBelowNext (snd (resolve env st rc req imposterState details))
     \<and> nextProxyResolutionKey st \<le>
         nextProxyResolutionKey (snd (resolve env st rc req imposterState details))
     \<and> pendingProxyResolutions st \<subseteq>\<^sub>m
         pendingProxyResolutions (snd (resolve env st rc req imposterState details))
     \<and> keysBelowNext (snd (resolveProxy env st proxyResponse key))
     \<and> nextProxyResolutionKey (snd (resolveProxy env st proxyResponse key)) =
         nextProxyResolutionKey st
     \<and> pendingProxyResolutions (snd (resolveProxy env st proxyResponse key)) =
         (if fulfilled (fst (resolveProxy env st proxyResponse key))
          then (pendingProxyResolutions st)(key := None) else pendingProxyResolutions st)
     \<and> (fulfilled (fst (resolveProxy env st proxyResponse key)) \<longrightarrow>
          key \<in> dom (pendingProxyResolutions st)
          \<and> fst (resolveProxy env (snd (resolveProxy env st proxyResponse key)) proxyResponse key) =
              Rejected (MissingResourceError ''invalid proxy resolution key''
                          (callbackURL env @ ''/'' @ key)))"
proof -
  have z: "keysBelowNext (create store repository)"
    by (simp add: keysBelowNext_def create_def)
  have y: "decimal m = decimal n \<longrightarrow> m = n"
    using decimal_inj by blast
  have a: "decimal (nextProxyResolutionKey st) \<notin> dom (pendingProxyResolutions st)"
    using assms by (rule next_key_fresh)
  have b: "(\<exists>proxyConfig. fst (proxyAndRecord env st rc req details) =
              Fulfilled (ProxyRequest proxyConfig req
                (callbackURL env @ ''/'' @ decimal (nextProxyResolutionKey st))))
          \<and> pendingProxyResolutions (snd (proxyAndRecord env st rc req details)) =
              (pendingProxyResolutions st)(decimal (nextProxyResolutionKey st) \<mapsto>
                 \<lparr>responseConfig = rc, request = req, startTime = clock env,
                  requestDetails = details\<rparr>)
          \<and> nextProxyResolutionKey (snd (proxyAndRecord env st rc req details)) =
              nextProxyResolutionKey st + 1"
    if "proxy env = None" "deref st rc = JObj kvs" "map_of kvs ''proxy'' = Some (JObj pkvs)"
  proof -
    have f: "fulfilled (fst (proxyAndRecord env st rc req details))"
      using that by (rule delegate_fulfilled)
    with proxyAndRecord_delegate [OF that(1), of st rc req details]
    obtain pc where "proxyAndRecord env st rc req details =
            (Fulfilled (ProxyRequest pc req
               (callbackURL env @ ''/'' @ decimal (nextProxyResolutionKey st))),
             snd (proxyAndRecord env st rc req details))"
      and "keyState (snd (proxyAndRecord env st rc req details)) =
              delegated st \<lparr>responseConfig = rc, request = req, startTime = clock env,
                            requestDetails = details\<rparr>"
      by auto
    then show ?thesis
      by (auto simp: keyState_def delegated_def dest: arg_cong [where f = fst])
  qed
  have c: "keysBelowNext (snd (resolve env st rc req imposterState details))
     \<and> nextProxyResolutionKey st \<le>
         nextProxyResolutionKey (snd (resolve env st rc req imposterState details))
     \<and> pendingProxyResolutions st \<subseteq>\<^sub>m
         pendingProxyResolutions (snd (resolve env st rc req imposterState details))"
  proof -
    from resolve_keys [of env st rc req imposterState details]
    consider "keyState (snd (resolve env st rc req imposterState details)) = keyState st"
      | entry where "keyState (snd (resolve env st rc req imposterState details)) = delegated st entry"
      by blast
    then show ?thesis
    proof cases
      case 1
      from keysBelowNext_same [OF assms 1] show ?thesis by blast
    next
      case 2
      from keysBelowNext_delegated [OF assms 2] show ?thesis by blast
    qed
  qed
  note k = resolveProxy_keys [of env st proxyResponse key]
  have d1: "keysBelowNext (snd (resolveProxy env st proxyResponse key))"
    using k keysBelowNext_same(1) [OF assms] keysBelowNext_completed [OF assms]
    by (cases "fulfilled (fst (resolveProxy env st proxyResponse key))") simp_all
  have d2: "nextProxyResolutionKey (snd (resolveProxy env st proxyResponse key)) =
         nextProxyResolutionKey st"
    and d3: "pendingProxyResolutions (snd (resolveProxy env st proxyResponse key)) =
         (if fulfilled (fst (resolveProxy env st proxyResponse key))
          then (pendingProxyResolutions st)(key := None) else pendingProxyResolutions st)"
    using k by (auto simp: keyState_def completed_def split: if_splits)
  have e: "key \<in> dom (pendingProxyResolutions st)
          \<and> fst (resolveProxy env (snd (resolveProxy env st proxyResponse key)) proxyResponse key) =
              Rejected (MissingResourceError ''invalid proxy resolution key''
                          (callbackURL env @ ''/'' @ key))"
    if "fulfilled (fst (resolveProxy env st proxyResponse key))"
  proof -
    have gone: "pendingProxyResolutions (snd (resolveProxy env st proxyResponse key)) key = None"
      using d3 that by simp
    have mem: "key \<in> dom (pendingProxyResolutions st)"
      using that by (rule resolveProxy_fulfilled_pending)
    with assms obtain k where "key = decimal k"
      unfolding keysBelowNext_def by blast
    then have "key \<notin> set inheritedNames"
      using inherited_not_decimal by simp
    then show ?thesis
      using gone mem by (simp add: resolveProxy_def)
  qed
  from z y a b c d1 d2 d3 e show ?thesis by blast
qed

theorem resolution_keys_witness:
  "keysBelowNext (examplePending ''proxyOnce'')
   \<and> fst (proxyAndRecord outOfProcess (examplePending ''proxyOnce'') 0
            (JObj [(''path'', JStr ''/users'')]) JUndefined) =
       Fulfilled (ProxyRequest
         (JObj [(''to'', JStr ''http://origin''), (''mode'', JStr ''proxyOnce'')])
         (JObj [(''path'', JStr ''/users'')])
         ''http://localhost:2525/imposters/4545/_requests/1'')
   \<and> pendingProxyResolutions (snd (proxyAndRecord outOfProcess (examplePending ''proxyOnce'') 0
            (JObj [(''path'', JStr ''/users'')]) JUndefined)) =
       [''0'' \<mapsto> \<lparr>responseConfig = 0, request = JObj [(''path'', JStr ''/orders'')],
               startTime = 0, requestDetails = JUndefined\<rparr>,
        ''1'' \<mapsto> \<lparr>responseConfig = 0, request = JObj [(''path'', JStr ''/users'')],
               startTime = 0, requestDetails = JUndefined\<rparr>]
   \<and> fulfilled (fst (resolveProxy outOfProcess (examplePending ''proxyOnce'') 2 ''0''))
   \<and> pendingProxyResolutions (snd (resolveProxy outOfProcess (examplePending ''proxyOnce'') 2 ''0''))
       = Map.empty
   \<and> fst (resolveProxy outOfProcess
            (snd (resolveProxy outOfProcess (examplePending ''proxyOnce'') 2 ''0'')) 2 ''0'') =
       Rejected (MissingResourceError ''invalid proxy resolution key''
                   ''http://localhost:2525/imposters/4545/_requests/0'')"
proof -
  let ?st = "examplePending ''proxyOnce''"
  have inv: "keysBelowNext ?st"
    by (auto simp: keysBelowNext_def examplePending_def decimal.simps digit_def
          intro!: exI [of _ 0] split: if_splits)
  have out: "proxy outOfProcess = None"
    and url: "callbackURL outOfProcess = ''http://localhost:2525/imposters/4545/_requests''"
    and clk: "clock outOfProcess = 0"
    by (simp_all add: outOfProcess_def)
  have cfg: "deref ?st 0 =
      JObj [(''proxy'', JObj [(''to'', JStr ''http://origin''), (''mode'', JStr ''proxyOnce'')])]"
    by (simp add: deref_def examplePending_def exampleState_def exampleConfig_def create_def)
  have p: "map_of [(''proxy'', JObj [(''to'', JStr ''http://origin''), (''mode'', JStr ''proxyOnce'')])]
             ''proxy'' = Some (JObj [(''to'', JStr ''http://origin''), (''mode'', JStr ''proxyOnce'')])"
    by simp
  have keys: "nextProxyResolutionKey ?st = 1"
    "pendingProxyResolutions ?st =
       [''0'' \<mapsto> \<lparr>responseConfig = 0, request = JObj [(''path'', JStr ''/orders'')],
               startTime = 0, requestDetails = JUndefined\<rparr>]"
    by (simp_all add: examplePending_def)
  have ful: "fulfilled (fst (resolveProxy outOfProcess ?st 2 ''0''))"
    by (simp add: ex_pending_completes)
  note t = resolution_keys [OF inv, of "[]" "[]" 0 0 outOfProcess 0
      "[(''proxy'', JObj [(''to'', JStr ''http://origin''), (''mode'', JStr ''proxyOnce'')])]"
      "[(''to'', JStr ''http://origin''), (''mode'', JStr ''proxyOnce'')]"
      "JObj [(''path'', JStr ''/users'')]" JUndefined "JObj []" 2 "''0''"]
  from t out cfg p obtain pc where
    d1: "fst (proxyAndRecord outOfProcess ?st 0 (JObj [(''path'', JStr ''/users'')]) JUndefined) =
          Fulfilled (ProxyRequest pc (JObj [(''path'', JStr ''/users'')])
            (callbackURL outOfProcess @ ''/'' @ decimal (nextProxyResolutionKey ?st)))"
    and d2: "pendingProxyResolutions (snd (proxyAndRecord outOfProcess ?st 0
               (JObj [(''path'', JStr ''/users'')]) JUndefined)) =
              (pendingProxyResolutions ?st)(decimal (nextProxyResolutionKey ?st) \<mapsto>
                 \<lparr>responseConfig = 0, request = JObj [(''path'', JStr ''/users'')],
                  startTime = clock outOfProcess, requestDetails = JUndefined\<rparr>)"
    by blast
  have pc: "pc = JObj [(''to'', JStr ''http://origin''), (''mode'', JStr ''proxyOnce'')]"
    using d1 cfg out
    by (simp add: proxyAndRecord_def tryS_def bindE_def Let_def)
  from t ful have d3: "pendingProxyResolutions (snd (resolveProxy outOfProcess ?st 2 ''0'')) =
         (pendingProxyResolutions ?st)(''0'' := None)"
    and d4: "fst (resolveProxy outOfProcess (snd (resolveProxy outOfProcess ?st 2 ''0'')) 2 ''0'') =
              Rejected (MissingResourceError ''invalid proxy resolution key''
                          (callbackURL outOfProcess @ ''/'' @ ''0''))"
    by simp_all
  show ?thesis
    using inv d1 d2 d3 d4 ful
    by (simp add: pc keys url clk decimal.simps digit_def)
qed

section \<open>Proxy configurations with an unknown mode\<close>

text \<open>
  C10: when a proxy response configuration has a mode that is none of proxyOnce,
  proxyAlways and proxyTransparent, or has no mode, \<open>resolve\<close> does not fail on it.
  Before dispatching it rewrites the mode of the configuration to proxyOnce, in place,
  and from there the exchange is the one of the proxyOnce configuration: \<open>resolve\<close>
  gives the same promise and the same final state as on the state in which the
  configuration already says proxyOnce. For an out-of-process protocol the promise is
  fulfilled with the proxy request carrying the rewritten proxy configuration and the
  copy of the request that \<open>resolve\<close> makes before it dispatches. The request is one
  that can be copied: of a request that is \<open>undefined\<close> no copy can be made, and
  \<open>resolve\<close> raises before it looks at the mode.
\<close>

theorem unknown_mode_is_proxyOnce:
  assumes "deref st rc = JObj kvs"
    and "map_of kvs ''proxy'' = Some (JObj pkvs)"
    and "get (JObj kvs) ''is'' = Inr i" and "\<not> truthy i"
    and "get (JObj kvs) ''inject'' = Inr j" and "\<not> truthy j"
    and "get (JObj pkvs) ''mode'' = Inr mode"
    and "mode \<notin> set [JStr ''proxyOnce'', JStr ''proxyAlways'', JStr ''proxyTransparent'']"
    and "clone req = Inr cloned"
  shows "resolve env st rc req imposterState options =
         resolve env
           (assign st rc (JObj (AList.update ''proxy''
              (JObj (AList.update ''mode'' (JStr ''proxyOnce'') pkvs)) kvs)))
           rc req imposterState options
     \<and> bindE (get (deref (assign st rc (JObj (AList.update ''proxy''
              (JObj (AList.update ''mode'' (JStr ''proxyOnce'') pkvs)) kvs))) rc) ''proxy'')
           (\<lambda>p. get p ''mode'') = Inr (JStr ''proxyOnce'')
     \<and> (proxy env = None \<longrightarrow>
          resolve env st rc req imposterState options =
            (Fulfilled (ProxyRequest (JObj (AList.update ''mode'' (JStr ''proxyOnce'') pkvs)) cloned
                          (callbackURL env @ ''/'' @ decimal (nextProxyResolutionKey st))),
             (assign st rc (JObj (AList.update ''proxy''
                (JObj (AList.update ''mode'' (JStr ''proxyOnce'') pkvs)) kvs)))
               \<lparr>pendingProxyResolutions :=
                  (pendingProxyResolutions st)(decimal (nextProxyResolutionKey st) \<mapsto>
                     \<lparr>responseConfig = rc, request = cloned, startTime = clock env,
                      requestDetails = options\<rparr>),
                nextProxyResolutionKey := nextProxyResolutionKey st + 1\<rparr>))"
proof -
  let ?p = "JObj (AList.update ''mode'' (JStr ''proxyOnce'') pkvs)"
  let ?c = "JObj (AList.update ''proxy'' ?p kvs)"
  let ?st = "assign st rc ?c"
  note cfg = assms(1) and p = assms(2)
  have valid: "rc < length (objects st)" using cfg by (rule deref_valid)
  have d: "deref ?st rc = ?c" using valid by (rule deref_assign)
  have g2: "get ?c ''proxy'' = Inr ?p" by (simp add: update_conv')
  have g3: "get ?p ''mode'' = Inr (JStr ''proxyOnce'')" by (simp add: update_conv')
  have gi: "get ?c ''is'' = Inr i" using assms(3) by (simp add: update_conv')
  have gj: "get ?c ''inject'' = Inr j" using assms(5) by (simp add: update_conv')
  have g1: "get (deref st rc) ''proxy'' = Inr (JObj pkvs)" using cfg p by simp
  have eq: "proxyAndRecord env st rc cloned options = proxyAndRecord env ?st rc cloned options"
    by (rule proxyAndRecord_unknown_mode [OF cfg p assms(7) assms(8)])
  have r1: "resolve env st rc req imposterState options =
         resolve env ?st rc req imposterState options"
    using resolve_proxy_only [of st rc i "JObj pkvs" j req cloned env imposterState options]
          resolve_proxy_only [of ?st rc i ?p j req cloned env imposterState options]
          assms(3-6) assms(9) g1
    by (simp add: cfg d gi gj g2 eq del: get.simps)
  have r2: "bindE (get (deref ?st rc) ''proxy'') (\<lambda>p. get p ''mode'') = Inr (JStr ''proxyOnce'')"
    by (simp add: d g2 g3 bindE_Inr del: get.simps)
  have r3: "resolve env st rc req imposterState options =
            (Fulfilled (ProxyRequest ?p cloned
                          (callbackURL env @ ''/'' @ decimal (nextProxyResolutionKey st))),
             ?st\<lparr>pendingProxyResolutions :=
                  (pendingProxyResolutions st)(decimal (nextProxyResolutionKey st) \<mapsto>
                     \<lparr>responseConfig = rc, request = cloned, startTime = clock env,
                      requestDetails = options\<rparr>),
                nextProxyResolutionKey := nextProxyResolutionKey st + 1\<rparr>)"
    if out: "proxy env = None"
  proof -
    have d': "deref (?st\<lparr>pendingProxyResolutions := m, nextProxyResolutionKey := n\<rparr>) rc = ?c" for m n
      using valid by (simp add: deref_def assign_def)
    have pa: "proxyAndRecord env ?st rc cloned options =
            (Fulfilled (ProxyRequest ?p cloned
                          (callbackURL env @ ''/'' @ decimal (nextProxyResolutionKey st))),
             ?st\<lparr>pendingProxyResolutions :=
                  (pendingProxyResolutions st)(decimal (nextProxyResolutionKey st) \<mapsto>
                     \<lparr>responseConfig = rc, request = cloned, startTime = clock env,
                      requestDetails = options\<rparr>),
                nextProxyResolutionKey := nextProxyResolutionKey st + 1\<rparr>)"
      unfolding proxyAndRecord_def
      by (simp add: d g2 g3 bindE_Inr tryS_Inr out Let_def del: get.simps) (simp add: assign_def)
    show ?thesis
      using resolve_proxy_only [of ?st rc i ?p j req cloned env imposterState options]
        assms(4,6,9)
      by (simp add: r1 d gi gj g2 pa thenS_def d' tryS_Inr out del: get.simps)
  qed
  from r1 r2 r3 show ?thesis by blast
qed


theorem unknown_mode_is_proxyOnce_witness:
  "resolve outOfProcess
     (create [JObj [(''proxy'', JObj [(''to'', JStr ''http://origin'')])]]
        [\<lparr>predicates = JArr [], responses = [0]\<rparr>])
     0 (JObj [(''path'', JStr ''/orders'')]) (JObj []) JUndefined
   = (Fulfilled (ProxyRequest
         (JObj [(''to'', JStr ''http://origin''), (''mode'', JStr ''proxyOnce'')])
         (JObj [(''path'', JStr ''/orders'')])
         ''http://localhost:2525/imposters/4545/_requests/0''),
      (create [JObj [(''proxy'', JObj [(''to'', JStr ''http://origin''),
                                        (''mode'', JStr ''proxyOnce'')])]]
         [\<lparr>predicates = JArr [], responses = [0]\<rparr>])
        \<lparr>pendingProxyResolutions :=
           [''0'' \<mapsto> \<lparr>responseConfig = 0, request = JObj [(''path'', JStr ''/orders'')],
                   startTime = 0, requestDetails = JUndefined\<rparr>],
         nextProxyResolutionKey := 1\<rparr>)"
proof -
  let ?st = "create [JObj [(''proxy'', JObj [(''to'', JStr ''http://origin'')])]]
               [\<lparr>predicates = JArr [], responses = [0]\<rparr>]"
  have h1: "deref ?st 0 = JObj [(''proxy'', JObj [(''to'', JStr ''http://origin'')])]"
    by (simp add: deref_def create_def)
  have h2: "map_of [(''proxy'', JObj [(''to'', JStr ''http://origin'')])] ''proxy''
            = Some (JObj [(''to'', JStr ''http://origin'')])"
    by simp
  have h3: "get (JObj [(''proxy'', JObj [(''to'', JStr ''http://origin'')])]) ''is'' = Inr JUndefined"
    and h4: "\<not> truthy JUndefined"
    and h5: "get (JObj [(''proxy'', JObj [(''to'', JStr ''http://origin'')])]) ''inject'' = Inr JUndefined"
    and h6: "get (JObj [(''to'', JStr ''http://origin'')]) ''mode'' = Inr JUndefined"
    and h7: "JUndefined \<notin> set [JStr ''proxyOnce'', JStr ''proxyAlways'', JStr ''proxyTransparent'']"
    by simp_all
  have h8: "clone (JObj [(''path'', JStr ''/orders'')]) = Inr (JObj [(''path'', JStr ''/orders'')])"
    by (simp add: clone_def)
  have out: "proxy outOfProcess = None"
    and url: "callbackURL outOfProcess = ''http://localhost:2525/imposters/4545/_requests''"
    and clk: "clock outOfProcess = 0"
    by (simp_all add: outOfProcess_def)
  note t = unknown_mode_is_proxyOnce [OF h1 h2 h3 h4 h5 h4 h6 h7 h8,
      of outOfProcess "JObj []" JUndefined]
  from t out have "resolve outOfProcess ?st 0 (JObj [(''path'', JStr ''/orders'')]) (JObj []) JUndefined =
            (Fulfilled (ProxyRequest (JObj (AList.update ''mode'' (JStr ''proxyOnce'')
                            [(''to'', JStr ''http://origin'')]))
                          (JObj [(''path'', JStr ''/orders'')])
                          (callbackURL outOfProcess @ ''/'' @ decimal (nextProxyResolutionKey ?st))),
             (assign ?st 0 (JObj (AList.update ''proxy''
                (JObj (AList.update ''mode'' (JStr ''proxyOnce'') [(''to'', JStr ''http://origin'')]))
                [(''proxy'', JObj [(''to'', JStr ''http://origin'')])])))
               \<lparr>pendingProxyResolutions :=
                  (pendingProxyResolutions ?st)(decimal (nextProxyResolutionKey ?st) \<mapsto>
                     \<lparr>responseConfig = 0, request = JObj [(''path'', JStr ''/orders'')],
                      startTime = clock outOfProcess, requestDetails = JUndefined\<rparr>),
                nextProxyResolutionKey := nextProxyResolutionKey ?st + 1\<rparr>)"
    by blast
  then show ?thesis
    by (simp add: url clk create_def assign_def decimal.simps digit_def)
qed

end
